theory Spec2Isabelle
  imports Complex_Main
begin

section \<open>Postal-code validation\<close>

text \<open>
  Both services validate the postal code with
  \<^verbatim>\<open>regexp.MatchString(`^\d{8}$`, cep)\<close>.
  The pattern is embedded as the syntax tree Go's parser builds for it (Perl syntax, no
  flags): a concatenation of the begin-of-text assertion, the class \<^verbatim>\<open>[0-9]\<close>
  repeated exactly eight times, and the end-of-text assertion. Without the \<^verbatim>\<open>m\<close>
  flag \<^verbatim>\<open>^\<close> and \<^verbatim>\<open>$\<close> match only at the two ends of the text
  (a trailing newline is not skipped).

  A Go string is a sequence of bytes, here a \<^typ>\<open>string\<close>. The matcher reads UTF-8
  code points; a class of ASCII ranges accepts a code point exactly when it is a single
  byte in one of the ranges (every byte from 0x80 on belongs to a code point beyond ASCII or
  is read as U+FFFD), so the class step below consumes one byte.
\<close>

datatype regexp =
    BeginText
  | EndText
  | CharClass "(nat \<times> nat) list"
  | Repeat nat regexp
  | Concat regexp regexp

definition in_class :: "(nat \<times> nat) list \<Rightarrow> char \<Rightarrow> bool" where
  "in_class ranges c = list_ex (\<lambda>(lo, hi). lo \<le> of_char c \<and> of_char c \<le> hi) ranges"

text \<open>
  A position in the text: whether it is the beginning of the text, and the bytes that
  remain. \<open>step r p\<close> lists the positions at which a match of \<open>r\<close> that starts at \<open>p\<close>
  can end.
\<close>

type_synonym position = "bool \<times> string"

fun weight :: "regexp \<Rightarrow> nat" where
  "weight (Repeat n r) = Suc n + weight r"
| "weight (Concat r1 r2) = Suc (weight r1 + weight r2)"
| "weight _ = 0"

function step :: "regexp \<Rightarrow> position \<Rightarrow> position list" where
  "step BeginText (b, rest) = (if b then [(b, rest)] else [])"
| "step EndText (b, rest) = (if rest = [] then [(b, rest)] else [])"
| "step (CharClass ranges) (b, rest) =
     (case rest of
        [] \<Rightarrow> []
      | c # cs \<Rightarrow> if in_class ranges c then [(False, cs)] else [])"
| "step (Repeat 0 r) p = [p]"
| "step (Repeat (Suc n) r) p = concat (map (step (Repeat n r)) (step r p))"
| "step (Concat r1 r2) p = concat (map (step r2) (step r1 p))"
  by pat_completeness auto
termination
  by (relation "measure (\<lambda>(r, p). weight r)") auto

fun starts :: "bool \<Rightarrow> string \<Rightarrow> position list" where
  "starts b [] = [(b, [])]"
| "starts b (c # cs) = (b, c # cs) # starts False cs"

text \<open>\<^verbatim>\<open>MatchString\<close> reports whether the text contains any match of the pattern.\<close>

definition MatchString :: "regexp \<Rightarrow> string \<Rightarrow> bool" where
  "MatchString re s = list_ex (\<lambda>p. step re p \<noteq> []) (starts True s)"

definition cep_pattern :: regexp where
  "cep_pattern = Concat BeginText (Concat (Repeat 8 (CharClass [(48, 57)])) EndText)"

definition validateCEP :: "string \<Rightarrow> bool" where
  "validateCEP cep = MatchString cep_pattern cep"

definition is_decimal_digit :: "char \<Rightarrow> bool" where
  "is_decimal_digit c = (c \<in> set ''0123456789'')"

section \<open>IEEE 754 binary64 arithmetic\<close>

text \<open>
  Go's \<^verbatim>\<open>float64\<close>. A finite value \<open>Finite s m e\<close> stands for
  \<open>(-1)\<^sup>s \<times> m \<times> 2\<^sup>e\<close> with the sign \<open>s\<close>, the 53-bit significand \<open>m\<close> and
  the exponent \<open>e\<close> of its last bit; zero keeps its sign. The arithmetic works on
  integers only: an exact result is a fraction \<open>n / d\<close> of two integers, rounded once, to
  the nearest value and to the even significand on a tie.
\<close>

datatype float64 = Finite bool int int | Inf bool | NaN

definition is_finite64 :: "float64 \<Rightarrow> bool" where
  "is_finite64 x =
     (case x of
        Finite s m e \<Rightarrow>
          0 \<le> m \<and> m < 2 ^ 53 \<and> - 1074 \<le> e \<and> e \<le> 971 \<and> (2 ^ 52 \<le> m \<or> e = - 1074)
      | Inf s \<Rightarrow> False
      | NaN \<Rightarrow> False)"

text \<open>The number of binary digits of a positive integer.\<close>

function bitlen :: "int \<Rightarrow> int" where
  "bitlen n = (if n \<le> 0 then 0 else bitlen (n div 2) + 1)"
  by pat_completeness auto
termination
  by (relation "measure nat") auto

declare bitlen.simps [simp del]

definition pow2 :: "int \<Rightarrow> int" where
  "pow2 k = 2 ^ nat k"

definition round_nearest_even :: "int \<Rightarrow> int \<Rightarrow> int" where
  "round_nearest_even n d =
     (let q = n div d; r = n mod d
      in if 2 * r < d then q
         else if d < 2 * r then q + 1
         else if even q then q else q + 1)"

text \<open>
  \<open>round64 s n d\<close> is the \<^verbatim>\<open>float64\<close> nearest to the fraction \<open>n / d\<close>
  (\<open>0 \<le> n\<close>, \<open>0 < d\<close>) with the sign \<open>s\<close>: \<open>l\<close> is the exponent of the leading bit of
  \<open>n / d\<close>, \<open>e\<close> the exponent of the last of 53 bits (not below that of the subnormal
  numbers), \<open>m\<close> the fraction in units of \<open>2\<^sup>e\<close>, rounded. A result beyond the largest
  finite value is an infinity.
\<close>

definition round64 :: "bool \<Rightarrow> int \<Rightarrow> int \<Rightarrow> float64" where
  "round64 s n d =
     (if n = 0 then Finite s 0 (- 1074)
      else
        let k = bitlen n - bitlen d;
            l = (if d * pow2 k \<le> n * pow2 (- k) then k else k - 1);
            e = max (l - 52) (- 1074);
            m = round_nearest_even (n * pow2 (- e)) (d * pow2 e);
            m' = (if m = 2 ^ 53 then 2 ^ 52 else m);
            e' = (if m = 2 ^ 53 then e + 1 else e)
        in if 971 < e' then Inf s else Finite s m' e')"

definition signed :: "bool \<Rightarrow> int \<Rightarrow> int" where
  "signed s m = (if s then - m else m)"

text \<open>Go's \<^verbatim>\<open>x * y\<close> on \<^verbatim>\<open>float64\<close>.\<close>

fun f64_mul :: "float64 \<Rightarrow> float64 \<Rightarrow> float64" where
  "f64_mul NaN y = NaN"
| "f64_mul x NaN = NaN"
| "f64_mul (Inf s) (Inf t) = Inf (s \<noteq> t)"
| "f64_mul (Inf s) (Finite t n f) = (if n = 0 then NaN else Inf (s \<noteq> t))"
| "f64_mul (Finite s m e) (Inf t) = (if m = 0 then NaN else Inf (s \<noteq> t))"
| "f64_mul (Finite s m e) (Finite t n f) =
     round64 (s \<noteq> t) (m * n * pow2 (e + f)) (pow2 (- (e + f)))"

text \<open>
  Go's \<^verbatim>\<open>x + y\<close> on \<^verbatim>\<open>float64\<close>. An exact sum of zero is \<open>+0\<close>,
  unless both operands are \<open>-0\<close>.
\<close>

fun f64_add :: "float64 \<Rightarrow> float64 \<Rightarrow> float64" where
  "f64_add NaN y = NaN"
| "f64_add x NaN = NaN"
| "f64_add (Inf s) (Inf t) = (if s = t then Inf s else NaN)"
| "f64_add (Inf s) (Finite t n f) = Inf s"
| "f64_add (Finite s m e) (Inf t) = Inf t"
| "f64_add (Finite s m e) (Finite t n f) =
     (let g = min e f;
          a = signed s (m * pow2 (e - g)) + signed t (n * pow2 (f - g))
      in if a = 0 then Finite (s \<and> t) 0 (- 1074)
         else round64 (a < 0) (\<bar>a\<bar> * pow2 g) (pow2 (- g)))"

text \<open>The fused multiply-add: \<open>x \<times> y + z\<close> computed exactly and rounded once.\<close>

fun f64_fma :: "float64 \<Rightarrow> float64 \<Rightarrow> float64 \<Rightarrow> float64" where
  "f64_fma (Finite s m e) (Finite t n f) (Finite u k h) =
     (let g = min (e + f) h;
          a = signed (s \<noteq> t) (m * n * pow2 (e + f - g)) + signed u (k * pow2 (h - g))
      in if a = 0 then Finite ((s \<noteq> t) \<and> u) 0 (- 1074)
         else round64 (a < 0) (\<bar>a\<bar> * pow2 g) (pow2 (- g)))"
| "f64_fma (Finite s m e) (Finite t n f) (Inf u) = Inf u"
| "f64_fma (Finite s m e) (Finite t n f) NaN = NaN"
| "f64_fma x y z = f64_add (f64_mul x y) z"

text \<open>
  Go's \<^verbatim>\<open>x == y\<close> on \<^verbatim>\<open>float64\<close>: a NaN equals nothing, and the two
  zeros are equal.
\<close>

fun f64_eq :: "float64 \<Rightarrow> float64 \<Rightarrow> bool" where
  "f64_eq (Finite s m e) (Finite t n f) = (m = 0 \<and> n = 0 \<or> s = t \<and> m = n \<and> e = f)"
| "f64_eq (Inf s) (Inf t) = (s = t)"
| "f64_eq x y = False"

text \<open>
  The real number a finite value stands for (and 0 for the others, which no statement below
  relies on).
\<close>

definition valof :: "float64 \<Rightarrow> real" where
  "valof x =
     (case x of
        Finite s m e \<Rightarrow> real_of_int (signed s m) * 2 powi e
      | Inf s \<Rightarrow> 0
      | NaN \<Rightarrow> 0)"

text \<open>
  What IEEE 754 asks of an operation: \<open>rounds_to x r\<close> says that \<open>r\<close> is the real number
  \<open>x\<close> rounded to the nearest \<^verbatim>\<open>float64\<close>, ties to the even significand. Below the
  midpoint between the largest finite value and \<open>2\<^sup>1\<^sup>0\<^sup>2\<^sup>4\<close> the result is finite
  and in normal form, has the sign of \<open>x\<close>, is within half a unit in its last place of
  \<open>x\<close>, has an even significand when exactly half a unit away, and, when it is a power of
  two above \<open>x\<close> (the values below it are twice as dense), is within a quarter of a unit.
  From that midpoint on the result is the infinity with the sign of \<open>x\<close>. This predicate
  is written from the standard, not from the functions above.
\<close>

definition rounds_to :: "real \<Rightarrow> float64 \<Rightarrow> bool" where
  "rounds_to x r =
     (case r of
        Finite s m e \<Rightarrow>
          is_finite64 r
          \<and> \<bar>x\<bar> < 2 ^ 1024 - 2 ^ 970
          \<and> (x \<noteq> 0 \<longrightarrow> s = (x < 0))
          \<and> \<bar>x - valof r\<bar> \<le> 2 powi e / 2
          \<and> (\<bar>x - valof r\<bar> = 2 powi e / 2 \<longrightarrow> even m)
          \<and> (m = 2 ^ 52 \<and> - 1074 < e \<and> \<bar>x\<bar> < \<bar>valof r\<bar> \<longrightarrow> \<bar>x - valof r\<bar> \<le> 2 powi e / 4)
      | Inf s \<Rightarrow> 2 ^ 1024 - 2 ^ 970 \<le> \<bar>x\<bar> \<and> s = (x < 0)
      | NaN \<Rightarrow> False)"

text \<open>
  A non-negative decimal constant \<open>n / d\<close> of the program text, or a number of a JSON
  document, converted to \<^verbatim>\<open>float64\<close>: the nearest value.
\<close>

definition f64_const :: "int \<Rightarrow> int \<Rightarrow> float64" where
  "f64_const n d = round64 False n d"

text \<open>
  Go's \<^verbatim>\<open>x*y + z\<close>. The language lets an implementation fuse the two
  operations into one that rounds once (the compiler does on arm64, ppc64, s390x, riscv64
  and on amd64 from \<^verbatim>\<open>GOAMD64=v3\<close>); otherwise the product is rounded and
  then the sum. \<open>fused\<close> says which code the compiler emitted.
\<close>

definition go_mul_add :: "bool \<Rightarrow> float64 \<Rightarrow> float64 \<Rightarrow> float64 \<Rightarrow> float64" where
  "go_mul_add fused x y z = (if fused then f64_fma x y z else f64_add (f64_mul x y) z)"

section \<open>Temperature conversion\<close>

definition celsiusToFahrenheit :: "bool \<Rightarrow> float64 \<Rightarrow> float64" where
  "celsiusToFahrenheit fused celsius =
     go_mul_add fused celsius (f64_const 18 10) (f64_const 32 1)"

definition celsiusToKelvin :: "float64 \<Rightarrow> float64" where
  "celsiusToKelvin celsius = f64_add celsius (f64_const 273 1)"

section \<open>Data model of the two services\<close>

type_synonym bytes = string

text \<open>
  A Go \<^verbatim>\<open>error\<close> is modelled by the text its \<^verbatim>\<open>Error()\<close> method
  returns: the handlers compare that text and hand the error to the span, nothing else.
\<close>

type_synonym error = string

record CEPRequest =
  CEP :: string

record WeatherResponse =
  City :: string
  TempC :: float64
  TempF :: float64
  TempK :: float64

record ErrorResponse =
  Message :: string

text \<open>
  \<^verbatim>\<open>ViaCEPResponse\<close>; its first field is \<^verbatim>\<open>CEP\<close> in the source.
\<close>

record ViaCEPResponse =
  ViaCEP_CEP :: string
  Logradouro :: string
  Complemento :: string
  Bairro :: string
  Localidade :: string
  UF :: string
  IBGE :: string
  GIA :: string
  DDD :: string
  SIAFI :: string
  Erro :: bool

text \<open>
  The anonymous struct \<^verbatim>\<open>w\<close> of \<^verbatim>\<open>getWeather\<close>:
  \<^verbatim>\<open>w.Current.TempC\<close> and the pointer \<^verbatim>\<open>w.Error\<close>, nil or a struct
  with \<^verbatim>\<open>Code\<close> and \<^verbatim>\<open>Msg\<close>.
\<close>

record weather_error =
  Code :: int
  Msg :: string

record weather_data =
  Current_TempC :: float64
  Error :: "weather_error option"

subsection \<open>Responses\<close>

text \<open>
  A handler answers with \<^verbatim>\<open>c.JSON(code, obj)\<close> or with
  \<^verbatim>\<open>c.Data(code, contentType, data)\<close>. The JSON document of an object follows
  the \<^verbatim>\<open>json\<close> tags of its struct, in the order of the fields.
\<close>

datatype payload = ErrorPayload ErrorResponse | WeatherPayload WeatherResponse

datatype response = JSON int payload | Data int string bytes

datatype json = JString string | JNumber float64 | JObject "(string \<times> json) list"

fun to_json :: "payload \<Rightarrow> json" where
  "to_json (ErrorPayload e) = JObject [(''message'', JString (Message e))]"
| "to_json (WeatherPayload r) =
     JObject [(''city'', JString (City r)), (''temp_C'', JNumber (TempC r)),
              (''temp_F'', JNumber (TempF r)), (''temp_K'', JNumber (TempK r))]"

fun status_code :: "response \<Rightarrow> int" where
  "status_code (JSON code obj) = code"
| "status_code (Data code contentType data) = code"

text \<open>
  The body of a response: the document of the object given to \<^verbatim>\<open>c.JSON\<close>, or
  the bytes given to \<^verbatim>\<open>c.Data\<close>. The content type is the one gin writes for
  \<^verbatim>\<open>c.JSON\<close>, or the argument of \<^verbatim>\<open>c.Data\<close>.
\<close>

datatype body = Document json | Bytes bytes

fun response_body :: "response \<Rightarrow> body" where
  "response_body (JSON code obj) = Document (to_json obj)"
| "response_body (Data code contentType data) = Bytes data"

fun content_type :: "response \<Rightarrow> string" where
  "content_type (JSON code obj) = ''application/json; charset=utf-8''"
| "content_type (Data code contentType data) = contentType"

subsection \<open>Spans and outbound calls\<close>

datatype attr =
    AttrString string string
  | AttrInt64 string int
  | AttrFloat64 string float64
  | AttrBool string bool

record http_request =
  Method :: string
  URL :: string
  RequestHeader :: "(string \<times> string) list"
  RequestBody :: bytes

text \<open>
  What a handler does besides answering, in order: spans started and ended (by name),
  attributes set and errors recorded on a span, and requests handed to
  \<^verbatim>\<open>client.Do\<close>.
\<close>

datatype event =
    SpanStart string
  | SpanEnd string
  | SetAttributes string "attr list"
  | RecordError string error
  | HTTPDo http_request

text \<open>
  \<^verbatim>\<open>ctx, span := tracer.Start(ctx, name); defer span.End()\<close> around a body.
\<close>

definition traced :: "string \<Rightarrow> event list \<times> 'a \<Rightarrow> event list \<times> 'a" where
  "traced name r = (SpanStart name # fst r @ [SpanEnd name], snd r)"

text \<open>
  An HTTP response as the client sees it: the status code, the headers, and what
  \<^verbatim>\<open>io.ReadAll(resp.Body)\<close> gives, an error or the bytes.
\<close>

record http_response =
  StatusCode :: int
  Header :: "(string \<times> string) list"
  Body :: "error + bytes"

text \<open>
  Everything outside the two programs: the process environment, the network behind
  \<^verbatim>\<open>client.Do\<close>, and the library calls whose result depends on bytes received
  (\<^verbatim>\<open>c.ShouldBindJSON\<close> on the inbound body, \<^verbatim>\<open>json.Unmarshal\<close> into
  the two structs, the error of \<^verbatim>\<open>http.NewRequestWithContext\<close>), together with
  the compiler's choice for \<^verbatim>\<open>x*y + z\<close>. The handlers are functions of it; the
  theorems hold for every such environment.
\<close>

record world =
  Getenv :: "string \<Rightarrow> string"
  ShouldBindJSON :: "bytes \<Rightarrow> error + CEPRequest"
  NewRequestError :: "string \<Rightarrow> string \<Rightarrow> error option"
  ClientDo :: "http_request \<Rightarrow> error + http_response"
  UnmarshalViaCEP :: "bytes \<Rightarrow> error + ViaCEPResponse"
  UnmarshalWeather :: "bytes \<Rightarrow> error + weather_data"
  FusedMultiplyAdd :: bool

section \<open>Library functions with a fixed result\<close>

text \<open>\<^verbatim>\<open>%d\<close> of \<^verbatim>\<open>fmt\<close>: an integer in decimal.\<close>

function decimal :: "int \<Rightarrow> string" where
  "decimal n =
     (if n < 10 then [char_of (48 + n)]
      else decimal (n div 10) @ [char_of (48 + n mod 10)])"
  by pat_completeness auto
termination
  by (relation "measure nat") auto

declare decimal.simps [simp del]

definition Itoa :: "int \<Rightarrow> string" where
  "Itoa n = (if n < 0 then CHR ''-'' # decimal (- n) else decimal n)"

text \<open>
  \<^verbatim>\<open>url.QueryEscape\<close>: letters, digits and \<^verbatim>\<open>-_.~\<close> stay, a space
  becomes \<^verbatim>\<open>+\<close>, every other byte becomes \<^verbatim>\<open>%XX\<close> in upper-case
  hexadecimal.
\<close>

definition shouldEscape :: "char \<Rightarrow> bool" where
  "shouldEscape c =
     (let n = (of_char c :: nat)
      in \<not> ((97 \<le> n \<and> n \<le> 122) \<or> (65 \<le> n \<and> n \<le> 90) \<or> (48 \<le> n \<and> n \<le> 57)
             \<or> c \<in> set ''-_.~''))"

definition upperhex :: "nat \<Rightarrow> char" where
  "upperhex n = ''0123456789ABCDEF'' ! n"

fun QueryEscape :: "string \<Rightarrow> string" where
  "QueryEscape [] = []"
| "QueryEscape (c # cs) =
     (if c = CHR '' '' then ''+''
      else if shouldEscape c
        then [CHR ''%'', upperhex (of_char c div 16), upperhex (of_char c mod 16)]
        else [c]) @ QueryEscape cs"

text \<open>
  \<^verbatim>\<open>json.Marshal(req)\<close> of a \<^verbatim>\<open>CEPRequest\<close>. The Gateway calls it
  after validation only, on eight digits, which the encoder writes as they are.
\<close>

definition Marshal_CEPRequest :: "CEPRequest \<Rightarrow> bytes" where
  \<open>Marshal_CEPRequest req = ''{"cep":"'' @ CEP req @ ''"}''\<close>

text \<open>
  \<^verbatim>\<open>http.NewRequestWithContext(ctx, "GET", url, nil)\<close> when it succeeds.
\<close>

definition get_request :: "string \<Rightarrow> http_request" where
  "get_request url = \<lparr>Method = ''GET'', URL = url, RequestHeader = [], RequestBody = []\<rparr>"

section \<open>Resolver Service\<close>

definition viacep_url :: "string \<Rightarrow> string" where
  "viacep_url cep = ''https://viacep.com.br/ws/'' @ cep @ ''/json/''"

text \<open>
  \<^verbatim>\<open>getCityFromCEP\<close>: the events of the call and the error or the city name.
\<close>

definition getCityFromCEP :: "world \<Rightarrow> string \<Rightarrow> event list \<times> (error + string)" where
  "getCityFromCEP w cep =
     traced ''viacep-lookup''
      (let attrs = [SetAttributes ''viacep-lookup'' [AttrString ''cep'' cep]];
           url = viacep_url cep;
           req = get_request url
       in case NewRequestError w ''GET'' url of
            Some err \<Rightarrow> (attrs @ [RecordError ''viacep-lookup'' err], Inl err)
          | None \<Rightarrow>
            (case ClientDo w req of
               Inl err \<Rightarrow>
                 (attrs @ [HTTPDo req, RecordError ''viacep-lookup'' err], Inl err)
             | Inr resp \<Rightarrow>
               (case Body resp of
                  Inl err \<Rightarrow>
                    (attrs @ [HTTPDo req, RecordError ''viacep-lookup'' err], Inl err)
                | Inr body \<Rightarrow>
                  (case UnmarshalViaCEP w body of
                     Inl err \<Rightarrow>
                       (attrs @ [HTTPDo req, RecordError ''viacep-lookup'' err], Inl err)
                   | Inr viaCEPResp \<Rightarrow>
                       if Erro viaCEPResp
                       then (attrs @ [HTTPDo req,
                               SetAttributes ''viacep-lookup'' [AttrBool ''cep.not_found'' True]],
                             Inl ''CEP not found'')
                       else (attrs @ [HTTPDo req,
                               SetAttributes ''viacep-lookup''
                                 [AttrString ''city'' (Localidade viaCEPResp),
                                  AttrString ''state'' (UF viaCEPResp)]],
                             Inr (Localidade viaCEPResp))))))"

text \<open>
  The address of the weather lookup; \<^verbatim>\<open>url.Values.Encode\<close> writes the
  parameters in the order of their keys.
\<close>

definition weather_url :: "string \<Rightarrow> string \<Rightarrow> string" where
  "weather_url apiKey city =
     ''https://api.weatherapi.com/v1/current.json?''
       @ ''aqi=no&key='' @ QueryEscape apiKey @ ''&q='' @ QueryEscape city"

text \<open>\<^verbatim>\<open>getWeather\<close>.\<close>

definition getWeather :: "world \<Rightarrow> string \<Rightarrow> event list \<times> (error + float64)" where
  "getWeather w city =
     traced ''weather-lookup''
      (let attrs = [SetAttributes ''weather-lookup'' [AttrString ''city'' city]];
           apiKey = Getenv w ''WEATHERAPI_KEY''
       in if apiKey = ''''
          then (attrs @ [RecordError ''weather-lookup'' ''WEATHERAPI_KEY not set''],
                Inl ''WEATHERAPI_KEY not set'')
          else
            let weatherURL = weather_url apiKey city;
                wReq = get_request weatherURL
            in case NewRequestError w ''GET'' weatherURL of
                 Some err \<Rightarrow> (attrs @ [RecordError ''weather-lookup'' err], Inl err)
               | None \<Rightarrow>
                 (case ClientDo w wReq of
                    Inl err \<Rightarrow>
                      (attrs @ [HTTPDo wReq, RecordError ''weather-lookup'' err], Inl err)
                  | Inr wResp \<Rightarrow>
                      if StatusCode wResp = 401 \<or> StatusCode wResp = 403
                      then
                        (let err = ''weatherapi auth error: '' @ Itoa (StatusCode wResp)
                         in (attrs @ [HTTPDo wReq, RecordError ''weather-lookup'' err], Inl err))
                      else
                        (case Body wResp of
                           Inl err \<Rightarrow>
                             (attrs @ [HTTPDo wReq, RecordError ''weather-lookup'' err], Inl err)
                         | Inr wBody \<Rightarrow>
                           (case UnmarshalWeather w wBody of
                              Inl err \<Rightarrow>
                                (attrs @ [HTTPDo wReq, RecordError ''weather-lookup'' err],
                                 Inl err)
                            | Inr d \<Rightarrow>
                              (case Error d of
                                 Some e \<Rightarrow>
                                   if Code e = 1006
                                   then (attrs @ [HTTPDo wReq,
                                           RecordError ''weather-lookup'' ''city not found''],
                                         Inl ''city not found'')
                                   else
                                     (let err = ''weatherapi error '' @ Itoa (Code e) @ '': ''
                                                 @ Msg e
                                      in (attrs @ [HTTPDo wReq,
                                            RecordError ''weather-lookup'' err], Inl err))
                               | None \<Rightarrow>
                                   (attrs @ [HTTPDo wReq,
                                      SetAttributes ''weather-lookup''
                                        [AttrFloat64 ''temperature.celsius'' (Current_TempC d)]],
                                    Inr (Current_TempC d)))))))"

text \<open>
  The handler of \<^verbatim>\<open>POST /weather\<close>, on the bytes of the request body: the events
  and the response.
\<close>

definition weather_handler :: "world \<Rightarrow> bytes \<Rightarrow> event list \<times> response" where
  "weather_handler w body =
     traced ''weather-endpoint''
      (case ShouldBindJSON w body of
         Inl err \<Rightarrow>
           ([RecordError ''weather-endpoint'' err],
            JSON 422 (ErrorPayload \<lparr>Message = ''invalid zipcode''\<rparr>))
       | Inr req \<Rightarrow>
           if \<not> validateCEP (CEP req)
           then ([], JSON 422 (ErrorPayload \<lparr>Message = ''invalid zipcode''\<rparr>))
           else
             (let attrs = [SetAttributes ''weather-endpoint'' [AttrString ''cep'' (CEP req)]]
              in case getCityFromCEP w (CEP req) of
                   (evs1, Inl err) \<Rightarrow>
                     if err = ''CEP not found''
                     then (attrs @ evs1,
                           JSON 404 (ErrorPayload \<lparr>Message = ''can not find zipcode''\<rparr>))
                     else (attrs @ evs1 @ [RecordError ''weather-endpoint'' err],
                           JSON 500 (ErrorPayload \<lparr>Message = ''internal server error''\<rparr>))
                 | (evs1, Inr city) \<Rightarrow>
                   (case getWeather w city of
                      (evs2, Inl err) \<Rightarrow>
                        if err = ''city not found''
                        then (attrs @ evs1 @ evs2,
                              JSON 404 (ErrorPayload \<lparr>Message = ''can not find zipcode''\<rparr>))
                        else (attrs @ evs1 @ evs2 @ [RecordError ''weather-endpoint'' err],
                              JSON 500 (ErrorPayload \<lparr>Message = ''internal server error''\<rparr>))
                    | (evs2, Inr tempC) \<Rightarrow>
                       (let tempF = celsiusToFahrenheit (FusedMultiplyAdd w) tempC;
                            tempK = celsiusToKelvin tempC;
                            response = \<lparr>City = city, TempC = tempC, TempF = tempF,
                                         TempK = tempK\<rparr>
                        in (attrs @ evs1 @ evs2 @
                              [SetAttributes ''weather-endpoint''
                                 [AttrString ''response.city'' city,
                                  AttrFloat64 ''response.temp_c'' tempC,
                                  AttrFloat64 ''response.temp_f'' tempF,
                                  AttrFloat64 ''response.temp_k'' tempK]],
                            JSON 200 (WeatherPayload response))))))"

section \<open>Front Gateway\<close>

text \<open>
  The request to the Resolver Service: the marshalled \<^verbatim>\<open>CEPRequest\<close> as the
  body, and the content type set on it.
\<close>

definition service_b_request :: "CEPRequest \<Rightarrow> http_request" where
  "service_b_request req =
     \<lparr>Method = ''POST'', URL = ''http://service-b:8081/weather'',
      RequestHeader = [(''Content-Type'', ''application/json'')],
      RequestBody = Marshal_CEPRequest req\<rparr>"

text \<open>
  The part of the handler under the span \<^verbatim>\<open>call-service-b\<close>: the request to
  the Resolver Service and the relay of its response.
\<close>

definition call_service_b :: "world \<Rightarrow> CEPRequest \<Rightarrow> event list \<times> response" where
  "call_service_b w req =
     traced ''call-service-b''
      (let httpReq = service_b_request req
       in case NewRequestError w ''POST'' (URL httpReq) of
            Some err \<Rightarrow>
              ([RecordError ''call-service-b'' err],
               JSON 500 (ErrorPayload \<lparr>Message = ''internal server error''\<rparr>))
          | None \<Rightarrow>
            (case ClientDo w httpReq of
               Inl err \<Rightarrow>
                 ([HTTPDo httpReq, RecordError ''call-service-b'' err],
                  JSON 500 (ErrorPayload \<lparr>Message = ''internal server error''\<rparr>))
             | Inr resp \<Rightarrow>
               (case Body resp of
                  Inl err \<Rightarrow>
                    ([HTTPDo httpReq, RecordError ''call-service-b'' err],
                     JSON 500 (ErrorPayload \<lparr>Message = ''internal server error''\<rparr>))
                | Inr body \<Rightarrow>
                    ([HTTPDo httpReq,
                      SetAttributes ''call-service-b''
                        [AttrInt64 ''http.status_code'' (StatusCode resp)]],
                     Data (StatusCode resp) ''application/json'' body))))"

text \<open>The handler of \<^verbatim>\<open>POST /cep\<close>.\<close>

definition cep_handler :: "world \<Rightarrow> bytes \<Rightarrow> event list \<times> response" where
  "cep_handler w body =
     traced ''validate-cep''
      (case ShouldBindJSON w body of
         Inl err \<Rightarrow>
           ([RecordError ''validate-cep'' err],
            JSON 422 (ErrorPayload \<lparr>Message = ''invalid zipcode''\<rparr>))
       | Inr req \<Rightarrow>
           if \<not> validateCEP (CEP req)
           then ([], JSON 422 (ErrorPayload \<lparr>Message = ''invalid zipcode''\<rparr>))
           else
             (let r = call_service_b w req
              in (SetAttributes ''validate-cep'' [AttrString ''cep'' (CEP req)] # fst r,
                  snd r)))"

text \<open>The requests a run handed to \<^verbatim>\<open>client.Do\<close>.\<close>

fun http_calls :: "event list \<Rightarrow> http_request list" where
  "http_calls [] = []"
| "http_calls (HTTPDo r # evs) = r # http_calls evs"
| "http_calls (ev # evs) = http_calls evs"

section \<open>An example environment\<close>

text \<open>
  A small environment to run the handlers in: eight postal codes, the answers of the two
  providers for them, and the answers of the Resolver Service to the Gateway. The name of
  the city is given in UTF-8.
\<close>

definition Sao_Paulo :: string where
  "Sao_Paulo = ''S'' @ [CHR 0xC3, CHR 0xA3] @ ''o Paulo''"

definition example_request_bodies :: "(bytes \<times> CEPRequest) list" where
  \<open>example_request_bodies =
     [(''{"cep":"29902555"}'', \<lparr>CEP = ''29902555''\<rparr>),
      (''{"cep":"00000000"}'', \<lparr>CEP = ''00000000''\<rparr>),
      (''{"cep":"11111111"}'', \<lparr>CEP = ''11111111''\<rparr>),
      (''{"cep":"22222222"}'', \<lparr>CEP = ''22222222''\<rparr>),
      (''{"cep":"33333333"}'', \<lparr>CEP = ''33333333''\<rparr>),
      (''{"cep":"44444444"}'', \<lparr>CEP = ''44444444''\<rparr>),
      (''{"cep":"55555555"}'', \<lparr>CEP = ''55555555''\<rparr>),
      (''{"cep":"66666666"}'', \<lparr>CEP = ''66666666''\<rparr>),
      (''{"cep":"123"}'', \<lparr>CEP = ''123''\<rparr>),
      (''{}'', \<lparr>CEP = ''''\<rparr>)]\<close>

definition example_address :: "string \<Rightarrow> bool \<Rightarrow> ViaCEPResponse" where
  "example_address city erro =
     \<lparr>ViaCEP_CEP = '''', Logradouro = '''', Complemento = '''', Bairro = '''',
      Localidade = city, UF = ''SP'', IBGE = '''', GIA = '''', DDD = '''', SIAFI = '''',
      Erro = erro\<rparr>"

definition example_viacep_body :: "string \<Rightarrow> bytes" where
  \<open>example_viacep_body city = ''{"localidade":"'' @ city @ ''","uf":"SP"}''\<close>

definition example_viacep_bodies :: "(bytes \<times> ViaCEPResponse) list" where
  \<open>example_viacep_bodies =
     [(example_viacep_body Sao_Paulo, example_address Sao_Paulo False),
      (example_viacep_body ''Atlantis'', example_address ''Atlantis'' False),
      (example_viacep_body ''Eldorado'', example_address ''Eldorado'' False),
      (example_viacep_body ''Campinas'', example_address ''Campinas'' False),
      (example_viacep_body ''Utopia'', example_address ''Utopia'' False),
      (example_viacep_body ''Avalon'', example_address ''Avalon'' False),
      (''{"erro":true}'', example_address '''' True)]\<close>

definition example_weather_bodies :: "(bytes \<times> weather_data) list" where
  \<open>example_weather_bodies =
     [(''{"current":{"temp_c":28.5}}'',
         \<lparr>Current_TempC = f64_const 285 10, Error = None\<rparr>),
      (''{"current":{"temp_c":20}}'',
         \<lparr>Current_TempC = f64_const 20 1, Error = None\<rparr>),
      (''{"error":{"code":1006,"message":"No matching location found."}}'',
         \<lparr>Current_TempC = Finite False 0 (- 1074),
          Error = Some \<lparr>Code = 1006, Msg = ''No matching location found.''\<rparr>\<rparr>),
      (''{"error":{"code":9999,"message":"Internal application error."}}'',
         \<lparr>Current_TempC = Finite False 0 (- 1074),
          Error = Some \<lparr>Code = 9999, Msg = ''Internal application error.''\<rparr>\<rparr>),
      (''{"error":{"code":2008,"message":"API key has been disabled."}}'',
         \<lparr>Current_TempC = Finite False 0 (- 1074),
          Error = Some \<lparr>Code = 2008, Msg = ''API key has been disabled.''\<rparr>\<rparr>)]\<close>

definition example_answer :: "int \<Rightarrow> bytes \<Rightarrow> http_response" where
  "example_answer code data =
     \<lparr>StatusCode = code, Header = [(''Content-Type'', ''text/plain'')], Body = Inr data\<rparr>"

definition example_network :: "((string \<times> bytes) \<times> http_response) list" where
  \<open>example_network =
     [((viacep_url ''29902555'', ''''), example_answer 200 (example_viacep_body Sao_Paulo)),
      ((viacep_url ''00000000'', ''''), example_answer 200 ''{"erro":true}''),
      ((viacep_url ''22222222'', ''''), example_answer 200 (example_viacep_body ''Atlantis'')),
      ((viacep_url ''33333333'', ''''), example_answer 200 (example_viacep_body ''Eldorado'')),
      ((viacep_url ''44444444'', ''''), example_answer 200 (example_viacep_body ''Campinas'')),
      ((viacep_url ''55555555'', ''''), example_answer 200 (example_viacep_body ''Utopia'')),
      ((viacep_url ''66666666'', ''''), example_answer 200 (example_viacep_body ''Avalon'')),
      ((weather_url ''secret'' Sao_Paulo, ''''),
         example_answer 200 ''{"current":{"temp_c":28.5}}''),
      ((weather_url ''secret'' ''Atlantis'', ''''),
         example_answer 400 ''{"error":{"code":1006,"message":"No matching location found."}}''),
      ((weather_url ''secret'' ''Eldorado'', ''''),
         example_answer 400 ''{"error":{"code":9999,"message":"Internal application error."}}''),
      ((weather_url ''secret'' ''Campinas'', ''''),
         example_answer 500 ''{"current":{"temp_c":20}}''),
      ((weather_url ''secret'' ''Utopia'', ''''),
         example_answer 401 ''{"error":{"code":1006,"message":"No matching location found."}}''),
      ((weather_url ''secret'' ''Avalon'', ''''),
         example_answer 403 ''{"error":{"code":2008,"message":"API key has been disabled."}}''),
      ((''http://service-b:8081/weather'', ''{"cep":"29902555"}''),
         example_answer 200
           (''{"city":"'' @ Sao_Paulo
              @ ''","temp_C":28.5,"temp_F":83.30000000000001,"temp_K":301.5}'')),
      ((''http://service-b:8081/weather'', ''{"cep":"00000000"}''),
         example_answer 404 ''{"message":"can not find zipcode"}'')]\<close>

definition lookup :: "('a \<times> 'b) list \<Rightarrow> error \<Rightarrow> 'a \<Rightarrow> error + 'b" where
  "lookup table err x = (case map_of table x of None \<Rightarrow> Inl err | Some y \<Rightarrow> Inr y)"

definition example_world :: world where
  "example_world =
     \<lparr>Getenv = (\<lambda>name. if name = ''WEATHERAPI_KEY'' then ''secret'' else ''''),
      ShouldBindJSON = lookup example_request_bodies ''unexpected end of JSON input'',
      NewRequestError = (\<lambda>method url. None),
      ClientDo = (\<lambda>req. lookup example_network ''dial tcp: connection refused''
                              (URL req, RequestBody req)),
      UnmarshalViaCEP = lookup example_viacep_bodies ''unexpected end of JSON input'',
      UnmarshalWeather = lookup example_weather_bodies ''unexpected end of JSON input'',
      FusedMultiplyAdd = False\<rparr>"

text \<open>The same environment without the credential of the weather provider.\<close>

definition example_world_without_key :: world where
  "example_world_without_key = example_world\<lparr>Getenv := (\<lambda>name. '''')\<rparr>"

section \<open>Properties of the validator\<close>

lemma of_char_digit_iff:
  "(48 \<le> (of_char c :: nat) \<and> (of_char c :: nat) \<le> 57) = is_decimal_digit c"
proof -
  define n where "n = (of_char c :: nat)"
  have eq: "(n = of_char d) = (c = d)" for d
    unfolding n_def by (rule of_char_eq_iff)
  have "(48 \<le> n \<and> n \<le> 57) \<longleftrightarrow> n \<in> {48, 49, 50, 51, 52, 53, 54, 55, 56, 57}"
    by (simp only: insert_iff empty_iff) arith
  also have "\<dots> \<longleftrightarrow> is_decimal_digit c"
    using eq [of "CHR ''0''"] eq [of "CHR ''1''"] eq [of "CHR ''2''"] eq [of "CHR ''3''"]
      eq [of "CHR ''4''"] eq [of "CHR ''5''"] eq [of "CHR ''6''"] eq [of "CHR ''7''"]
      eq [of "CHR ''8''"] eq [of "CHR ''9''"]
    by (simp add: is_decimal_digit_def)
  finally show ?thesis by (simp add: n_def)
qed

lemma in_class_digit: "in_class [(48, 57)] c = is_decimal_digit c"
  by (simp add: in_class_def of_char_digit_iff)

lemma step_Repeat_digit:
  "step (Repeat n (CharClass [(48, 57)])) (b, rest) =
     (if n \<le> length rest \<and> list_all is_decimal_digit (take n rest)
      then [(b \<and> n = 0, drop n rest)] else [])"
proof (induction n arbitrary: b rest)
  case 0
  then show ?case by simp
next
  case (Suc n)
  show ?case
  proof (cases rest)
    case Nil
    then show ?thesis by simp
  next
    case (Cons c cs)
    then show ?thesis by (simp add: Suc.IH in_class_digit)
  qed
qed

lemma no_match_after_begin: "list_ex (\<lambda>p. step cep_pattern p \<noteq> []) (starts False s) = False"
  by (induction s) (simp_all add: cep_pattern_def)

lemma MatchString_cep_pattern:
  "MatchString cep_pattern s = (step cep_pattern (True, s) \<noteq> [])"
  by (cases s) (simp_all add: MatchString_def no_match_after_begin)

text \<open>
  Claim C1. The validator accepts a string exactly when it has eight bytes and each of
  them is a decimal digit; the empty string, any other length, and any string with a byte
  that is not a digit (a separator, a letter, leading or trailing white space) are rejected.
\<close>

theorem validateCEP_iff:
  "validateCEP s \<longleftrightarrow> length s = 8 \<and> list_all is_decimal_digit s"
proof -
  have "validateCEP s \<longleftrightarrow> step cep_pattern (True, s) \<noteq> []"
    by (simp only: validateCEP_def MatchString_cep_pattern)
  also have "\<dots> \<longleftrightarrow>
      8 \<le> length s \<and> list_all is_decimal_digit (take 8 s) \<and> drop 8 s = []"
    by (simp add: cep_pattern_def step_Repeat_digit)
  also have "\<dots> \<longleftrightarrow> length s = 8 \<and> list_all is_decimal_digit s"
    by auto
  finally show ?thesis .
qed

theorem validateCEP_iff_witness:
  "validateCEP ''29902555'' \<and> \<not> validateCEP '''' \<and> \<not> validateCEP ''123''
   \<and> \<not> validateCEP ''29902-555'' \<and> \<not> validateCEP '' 29902555''
   \<and> \<not> validateCEP ''2990255a'' \<and> \<not> validateCEP ''299025551''"
  using validateCEP_iff [of "''29902555''"] validateCEP_iff [of "''''"]
    validateCEP_iff [of "''123''"] validateCEP_iff [of "''29902-555''"]
    validateCEP_iff [of "'' 29902555''"] validateCEP_iff [of "''2990255a''"]
    validateCEP_iff [of "''299025551''"]
  by (simp add: is_decimal_digit_def)

section \<open>The arithmetic rounds correctly\<close>

text \<open>
  The arithmetic above computes on integers. This section relates it to the real numbers:
  every operation returns the exact real result rounded once. First, \<open>bitlen n\<close> is the
  number of binary digits of \<open>n\<close>.
\<close>

lemma bitlen_bounds:
  "0 < n \<Longrightarrow> 0 < bitlen n \<and> 2 ^ nat (bitlen n - 1) \<le> n \<and> n < 2 ^ nat (bitlen n)"
proof (induction n rule: bitlen.induct)
  case (1 n)
  show ?case
  proof (cases "n = 1")
    case True
    then show ?thesis by (simp add: bitlen.simps)
  next
    case False
    with "1.prems" have half: "0 < n div 2" by simp
    have ih: "0 < bitlen (n div 2) \<and> 2 ^ nat (bitlen (n div 2) - 1) \<le> n div 2
        \<and> n div 2 < 2 ^ nat (bitlen (n div 2))"
      using "1.IH" "1.prems" half by simp
    define b where "b = bitlen (n div 2)"
    have bn: "bitlen n = b + 1"
      using "1.prems" by (simp add: bitlen.simps [of n] b_def)
    have b: "0 < b" "2 ^ nat (b - 1) \<le> n div 2" "n div 2 < 2 ^ nat b"
      using ih by (simp_all add: b_def)
    have p: "(2::int) ^ nat b = 2 * 2 ^ nat (b - 1)"
      using b(1) by (metis Suc_nat_eq_nat_zadd1 add.commute diff_add_cancel
          diff_ge_0_iff_ge int_one_le_iff_zero_less power_Suc)
    have lo: "2 ^ nat b \<le> n"
      using b(2) p by linarith
    have hi: "n < 2 * 2 ^ nat b"
      using b(3) by linarith
    have q: "(2::int) ^ nat (b + 1) = 2 * 2 ^ nat b"
      using b(1) by (simp add: nat_add_distrib)
    show ?thesis
      using b(1) lo hi q by (simp add: bn)
  qed
qed

lemma pow2_pos: "0 < pow2 k"
  by (simp add: pow2_def)

lemma pow2_ratio: "real_of_int (pow2 k) / real_of_int (pow2 (- k)) = 2 powi k"
proof (cases "0 \<le> k")
  case True
  then show ?thesis by (simp add: pow2_def power_int_def)
next
  case False
  then show ?thesis by (simp add: pow2_def power_int_def field_simps)
qed

lemma bitlen_real:
  assumes "0 < n"
  shows "2 powi (bitlen n - 1) \<le> real_of_int n" and "real_of_int n < 2 powi (bitlen n)"
proof -
  have b: "0 < bitlen n" "2 ^ nat (bitlen n - 1) \<le> n" "n < 2 ^ nat (bitlen n)"
    using bitlen_bounds [OF assms] by simp_all
  have "real_of_int (2 ^ nat (bitlen n - 1)) \<le> real_of_int n"
    using b(2) by (rule of_int_le_iff [THEN iffD2])
  then show "2 powi (bitlen n - 1) \<le> real_of_int n"
    using b(1) by (simp add: power_int_def)
  have "real_of_int n < real_of_int (2 ^ nat (bitlen n))"
    using b(3) by (rule of_int_less_iff [THEN iffD2])
  then show "real_of_int n < 2 powi (bitlen n)"
    using b(1) by (simp add: power_int_def)
qed

lemma scaled_le_iff:
  assumes "0 < d"
  shows "(d * pow2 k \<le> n * pow2 (- k)) = (2 powi k \<le> real_of_int n / real_of_int d)"
proof -
  have p: "0 < real_of_int (pow2 k)" "0 < real_of_int (pow2 (- k))" "0 < real_of_int d"
    using pow2_pos assms by simp_all
  have "(d * pow2 k \<le> n * pow2 (- k))
      = (real_of_int d * real_of_int (pow2 k) \<le> real_of_int n * real_of_int (pow2 (- k)))"
    by (metis of_int_le_iff of_int_mult)
  also have "\<dots> = (real_of_int (pow2 k) / real_of_int (pow2 (- k))
      \<le> real_of_int n / real_of_int d)"
    using p by (simp add: field_simps)
  finally show ?thesis by (simp add: pow2_ratio)
qed

text \<open>
  Rounding a fraction to an integer moves it by at most one half.
\<close>

lemma round_nearest_even_error:
  assumes "0 < d"
  shows "\<bar>real_of_int n / real_of_int d - real_of_int (round_nearest_even n d)\<bar> \<le> 1 / 2"
proof -
  define q where "q = n div d"
  define r where "r = n mod d"
  have n: "n = d * q + r" by (simp add: q_def r_def)
  have r: "0 \<le> r" "r < d" using assms by (simp_all add: r_def)
  have dpos: "0 < real_of_int d" using assms by simp
  have frac: "real_of_int n / real_of_int d = real_of_int q + real_of_int r / real_of_int d"
    using dpos by (simp add: n field_simps)
  have rd: "0 \<le> real_of_int r / real_of_int d" "real_of_int r / real_of_int d < 1"
    using r dpos by simp_all
  consider "2 * r < d" | "d < 2 * r" | "2 * r = d" by linarith
  then show ?thesis
  proof cases
    case 1
    then have "real_of_int (2 * r) < real_of_int d" by (simp only: of_int_less_iff)
    then have "real_of_int r / real_of_int d < 1 / 2" using dpos by (simp add: field_simps)
    moreover have "round_nearest_even n d = q"
      using 1 by (simp add: round_nearest_even_def Let_def q_def r_def)
    ultimately show ?thesis using frac rd by simp
  next
    case 2
    then have "real_of_int d < real_of_int (2 * r)" by (simp only: of_int_less_iff)
    then have "1 / 2 < real_of_int r / real_of_int d" using dpos by (simp add: field_simps)
    moreover have "round_nearest_even n d = q + 1"
      using 2 by (simp add: round_nearest_even_def Let_def q_def r_def)
    ultimately show ?thesis using frac rd by simp
  next
    case 3
    then have "real_of_int (2 * r) = real_of_int d" by simp
    then have h: "real_of_int r / real_of_int d = 1 / 2" using dpos by (simp add: field_simps)
    have "round_nearest_even n d = q \<or> round_nearest_even n d = q + 1"
      using 3 by (simp add: round_nearest_even_def Let_def q_def r_def)
    then show ?thesis using frac h by auto
  qed
qed

text \<open>On a tie the result is even.\<close>

lemma round_nearest_even_tie:
  assumes "0 < d"
    and "\<bar>real_of_int n / real_of_int d - real_of_int (round_nearest_even n d)\<bar> = 1 / 2"
  shows "even (round_nearest_even n d)"
proof -
  define q where "q = n div d"
  define r where "r = n mod d"
  define f where "f = real_of_int r / real_of_int d"
  have n: "n = d * q + r" by (simp add: q_def r_def)
  have r: "0 \<le> r" "r < d" using assms(1) by (simp_all add: r_def)
  have dpos: "0 < real_of_int d" using assms(1) by simp
  have frac: "real_of_int n / real_of_int d = real_of_int q + f"
    using dpos by (simp add: n f_def field_simps)
  have tie: "\<bar>real_of_int q + f - real_of_int (round_nearest_even n d)\<bar> = 1 / 2"
    using assms(2) by (simp only: frac)
  consider "2 * r < d" | "d < 2 * r" | "2 * r = d" by linarith
  then show ?thesis
  proof cases
    case 1
    then have "real_of_int (2 * r) < real_of_int d" by (simp only: of_int_less_iff)
    then have "f < 1 / 2" using dpos by (simp add: f_def field_simps)
    moreover have "0 \<le> f" using r dpos by (simp add: f_def)
    moreover have "round_nearest_even n d = q"
      using 1 by (simp add: round_nearest_even_def Let_def q_def r_def)
    then have "\<bar>real_of_int q + f - real_of_int q\<bar> = 1 / 2"
      using tie by (simp only:)
    ultimately have False by linarith
    then show ?thesis ..
  next
    case 2
    then have "real_of_int d < real_of_int (2 * r)" by (simp only: of_int_less_iff)
    then have "1 / 2 < f" using dpos by (simp add: f_def field_simps)
    moreover have "f < 1" using r dpos by (simp add: f_def)
    moreover have "round_nearest_even n d = q + 1"
      using 2 by (simp add: round_nearest_even_def Let_def q_def r_def)
    then have "\<bar>real_of_int q + f - real_of_int (q + 1)\<bar> = 1 / 2"
      using tie by (simp only:)
    then have "\<bar>real_of_int q + f - (real_of_int q + 1)\<bar> = 1 / 2"
      by (simp only: of_int_add of_int_1)
    ultimately have False by linarith
    then show ?thesis ..
  next
    case 3
    then show ?thesis
      by (simp add: round_nearest_even_def Let_def q_def r_def)
  qed
qed

text \<open>
  The exponent \<open>l\<close> that \<open>round64\<close> computes is that of the leading bit of \<open>n / d\<close>.
\<close>

lemma leading_exponent:
  assumes "0 < n" and "0 < d"
  defines "k \<equiv> bitlen n - bitlen d"
  defines "l \<equiv> (if d * pow2 k \<le> n * pow2 (- k) then k else k - 1)"
  shows "2 powi l \<le> real_of_int n / real_of_int d"
    and "real_of_int n / real_of_int d < 2 powi (l + 1)"
proof -
  define q where "q = real_of_int n / real_of_int d"
  have npos: "0 < real_of_int n" and dpos: "0 < real_of_int d"
    using assms by simp_all
  note bn = bitlen_real [OF assms(1)]
  note bd = bitlen_real [OF assms(2)]
  have two: "(2::real) \<noteq> 0" by simp
  have "q < 2 powi (bitlen n) / real_of_int d"
    unfolding q_def using bn(2) dpos by (simp add: divide_strict_right_mono)
  also have "\<dots> \<le> 2 powi (bitlen n) / 2 powi (bitlen d - 1)"
    using bd(1) by (simp add: frac_le)
  also have "\<dots> = 2 powi (k + 1)"
    unfolding k_def using power_int_diff [of "2::real" "bitlen n" "bitlen d - 1"]
    by (simp add: algebra_simps)
  finally have upper: "q < 2 powi (k + 1)" .
  have "(2::real) powi (k - 1) = 2 powi (bitlen n - 1) / 2 powi (bitlen d)"
    unfolding k_def using power_int_diff [of "2::real" "bitlen n - 1" "bitlen d"]
    by (simp add: algebra_simps)
  also have "\<dots> \<le> real_of_int n / 2 powi (bitlen d)"
    using bn(1) by (simp add: divide_right_mono)
  also have "\<dots> < q"
    unfolding q_def using bd(2) npos dpos by (simp add: divide_strict_left_mono)
  finally have lower: "2 powi (k - 1) < q" .
  show "2 powi l \<le> real_of_int n / real_of_int d"
    using lower scaled_le_iff [OF assms(2), of k n] by (simp add: l_def q_def)
  show "real_of_int n / real_of_int d < 2 powi (l + 1)"
    using upper scaled_le_iff [OF assms(2), of k n] by (simp add: l_def q_def)
qed

text \<open>
  What \<open>round64\<close> computes for a positive fraction: a significand of at most 53 bits
  (\<open>2\<^sup>5\<^sup>3\<close> itself included, which is renormalised) and an exponent, within half a unit
  in the last place of the fraction.
\<close>

lemma round64_spec:
  assumes "0 < n" and "0 < d"
  obtains m0 e0 where "- 1074 \<le> e0" and "0 \<le> m0" and "m0 \<le> 2 ^ 53"
    and "2 ^ 52 \<le> m0 \<or> e0 = - 1074"
    and "2 powi (e0 + 52) \<le> real_of_int n / real_of_int d \<or> e0 = - 1074"
    and "\<bar>real_of_int n / real_of_int d - real_of_int m0 * 2 powi e0\<bar> \<le> 2 powi e0 / 2"
    and "\<bar>real_of_int n / real_of_int d - real_of_int m0 * 2 powi e0\<bar> = 2 powi e0 / 2
         \<longrightarrow> even m0"
    and "round64 s n d =
      (if 971 < (if m0 = 2 ^ 53 then e0 + 1 else e0) then Inf s
       else Finite s (if m0 = 2 ^ 53 then 2 ^ 52 else m0) (if m0 = 2 ^ 53 then e0 + 1 else e0))"
proof -
  define k where "k = bitlen n - bitlen d"
  define l where "l = (if d * pow2 k \<le> n * pow2 (- k) then k else k - 1)"
  define e0 where "e0 = max (l - 52) (- 1074)"
  define N where "N = n * pow2 (- e0)"
  define D where "D = d * pow2 e0"
  define m0 where "m0 = round_nearest_even N D"
  define q where "q = real_of_int n / real_of_int d"
  have result: "round64 s n d =
      (if 971 < (if m0 = 2 ^ 53 then e0 + 1 else e0) then Inf s
       else Finite s (if m0 = 2 ^ 53 then 2 ^ 52 else m0) (if m0 = 2 ^ 53 then e0 + 1 else e0))"
  proof -
    have "n \<noteq> 0" using assms(1) by simp
    then show ?thesis
      unfolding m0_def N_def D_def e0_def l_def k_def round64_def Let_def
      by (simp only: if_False)
  qed
  have qpos: "0 < q"
    using assms by (simp add: q_def)
  have Dpos: "0 < D"
    using assms(2) pow2_pos by (simp add: D_def)
  have p: "0 < real_of_int (pow2 e0)" "0 < real_of_int d"
    using pow2_pos assms(2) by simp_all
  have "real_of_int N / real_of_int D
      = q * (real_of_int (pow2 (- e0)) / real_of_int (pow2 (- (- e0))))"
    by (simp add: N_def D_def q_def)
  then have scaled: "real_of_int N / real_of_int D = q * 2 powi (- e0)"
    by (simp only: pow2_ratio)
  have pw: "0 < (2::real) powi e0"
    by simp
  have inv: "(2::real) powi (- e0) * 2 powi e0 = 1"
    by (simp add: power_int_minus)
  note lead = leading_exponent [OF assms, folded k_def, folded l_def, folded q_def]
  have err: "\<bar>real_of_int N / real_of_int D - real_of_int m0\<bar> \<le> 1 / 2"
    unfolding m0_def by (rule round_nearest_even_error [OF Dpos])
  have e0_bounds: "l - 52 \<le> e0" "- 1074 \<le> e0" "e0 = l - 52 \<or> e0 = - 1074"
    by (auto simp: e0_def)
  have "q * 2 powi (- e0) < 2 powi (l + 1) * 2 powi (- e0)"
    using lead(2) by simp
  also have "\<dots> = 2 powi (l + 1 - e0)"
    using power_int_add [of "2::real" "l + 1" "- e0"] by simp
  also have "\<dots> \<le> 2 powi 53"
    using e0_bounds(1) by (intro power_int_increasing) simp_all
  finally have upper: "real_of_int N / real_of_int D < 2 ^ 53"
    by (simp add: scaled)
  have m0_le: "m0 \<le> 2 ^ 53"
  proof -
    have "real_of_int m0 < 2 ^ 53 + 1" using err upper by linarith
    then have "real_of_int m0 < real_of_int (2 ^ 53 + 1)" by simp
    then have "m0 < 2 ^ 53 + 1" by (simp only: of_int_less_iff)
    then show ?thesis by simp
  qed
  have m0_ge: "0 \<le> m0"
  proof -
    have "0 < real_of_int N / real_of_int D" using qpos by (simp add: scaled)
    then have "- 1 < real_of_int m0" using err by linarith
    then have "real_of_int (- 1) < real_of_int m0" by simp
    then have "- 1 < m0" by (simp only: of_int_less_iff)
    then show ?thesis by simp
  qed
  have normal: "2 ^ 52 \<le> m0" if "e0 = l - 52"
  proof -
    have "(2::real) powi 52 = 2 powi l * 2 powi (- e0)"
      using that power_int_add [of "2::real" l "- e0"] by simp
    also have "\<dots> \<le> q * 2 powi (- e0)"
      using lead(1) by simp
    finally have "2 ^ 52 \<le> real_of_int N / real_of_int D"
      by (simp add: scaled)
    then have "2 ^ 52 - 1 < real_of_int m0" using err by linarith
    then have "real_of_int (2 ^ 52 - 1) < real_of_int m0" by simp
    then have "2 ^ 52 - 1 < m0" by (simp only: of_int_less_iff)
    then show ?thesis by simp
  qed
  have distance: "\<bar>q - real_of_int m0 * 2 powi e0\<bar>
      = \<bar>real_of_int N / real_of_int D - real_of_int m0\<bar> * 2 powi e0"
  proof -
    have "q - real_of_int m0 * 2 powi e0
        = (real_of_int N / real_of_int D - real_of_int m0) * 2 powi e0"
      using inv by (simp add: scaled algebra_simps)
    then show ?thesis
      using pw by (simp add: abs_mult)
  qed
  have value_err: "\<bar>q - real_of_int m0 * 2 powi e0\<bar> \<le> 2 powi e0 / 2"
  proof -
    have "\<bar>real_of_int N / real_of_int D - real_of_int m0\<bar> * 2 powi e0 \<le> (1 / 2) * 2 powi e0"
      using err pw by (intro mult_right_mono) simp_all
    then show ?thesis by (simp add: distance)
  qed
  have tie: "even m0" if "\<bar>q - real_of_int m0 * 2 powi e0\<bar> = 2 powi e0 / 2"
  proof -
    have "\<bar>real_of_int N / real_of_int D - real_of_int m0\<bar> * 2 powi e0 = (1 / 2) * 2 powi e0"
      using that by (simp add: distance)
    then have "\<bar>real_of_int N / real_of_int D - real_of_int m0\<bar> = 1 / 2"
      using pw by (simp only: mult_cancel_right) simp
    then show ?thesis
      unfolding m0_def by (rule round_nearest_even_tie [OF Dpos])
  qed
  have n1: "2 ^ 52 \<le> m0 \<or> e0 = - 1074"
    using normal e0_bounds(3) by blast
  have n2: "2 powi (e0 + 52) \<le> q \<or> e0 = - 1074"
    using lead(1) e0_bounds(3) by auto
  show thesis
    using that [of e0 m0] e0_bounds(2) m0_ge m0_le n1 n2 value_err tie result
    by (simp add: q_def)
qed

text \<open>
  A finite result of \<open>round64\<close> is in normal form and within half a unit in its last
  place of the fraction.
\<close>

lemma round64_correct:
  assumes "0 < n" and "0 < d" and "round64 s n d = Finite t m e"
  shows "t = s" and "is_finite64 (Finite t m e)"
    and "\<bar>real_of_int n / real_of_int d - real_of_int m * 2 powi e\<bar> \<le> 2 powi e / 2"
proof -
  obtain m0 e0 where e0: "- 1074 \<le> e0" and m0: "0 \<le> m0" "m0 \<le> 2 ^ 53"
    and normal: "2 ^ 52 \<le> m0 \<or> e0 = - 1074"
    and leading: "2 powi (e0 + 52) \<le> real_of_int n / real_of_int d \<or> e0 = - 1074"
    and err: "\<bar>real_of_int n / real_of_int d - real_of_int m0 * 2 powi e0\<bar> \<le> 2 powi e0 / 2"
    and tie: "\<bar>real_of_int n / real_of_int d - real_of_int m0 * 2 powi e0\<bar> = 2 powi e0 / 2
         \<longrightarrow> even m0"
    and result: "round64 s n d =
      (if 971 < (if m0 = 2 ^ 53 then e0 + 1 else e0) then Inf s
       else Finite s (if m0 = 2 ^ 53 then 2 ^ 52 else m0) (if m0 = 2 ^ 53 then e0 + 1 else e0))"
    by (rule round64_spec [OF assms(1,2)])
  show "t = s"
    using assms(3) result by (simp split: if_splits)
  show "is_finite64 (Finite t m e)"
  proof (cases "m0 = 2 ^ 53")
    case True
    then have "m = 2 ^ 52" "e = e0 + 1" "e0 + 1 \<le> 971"
      using assms(3) result by (simp_all split: if_splits)
    then show ?thesis
      using e0 by (simp add: is_finite64_def)
  next
    case False
    then have me: "m = m0" "e = e0" "e0 \<le> 971"
      using assms(3) result by (simp_all split: if_splits)
    have "m0 < 2 ^ 53" using m0(2) False by simp
    then show ?thesis
      using me m0(1) e0 normal by (simp add: is_finite64_def)
  qed
  show "\<bar>real_of_int n / real_of_int d - real_of_int m * 2 powi e\<bar> \<le> 2 powi e / 2"
  proof (cases "m0 = 2 ^ 53")
    case True
    then have me: "m = 2 ^ 52" "e = e0 + 1"
      using assms(3) result by (simp_all split: if_splits)
    have up: "(2::real) powi (e0 + 1) = 2 * 2 powi e0"
      by (rule power_int_add_1') simp
    have same: "real_of_int m * 2 powi e = real_of_int m0 * 2 powi e0"
      by (simp add: me True up)
    have "(2::real) powi e0 / 2 \<le> 2 powi e / 2"
      by (simp add: me up)
    then show ?thesis
      using err by (simp add: same)
  next
    case False
    then have "m = m0" "e = e0"
      using assms(3) result by (simp_all split: if_splits)
    then show ?thesis
      using err by simp
  qed
qed

text \<open>An infinity is the result only from the midpoint above the largest finite value on.\<close>

lemma round64_overflow:
  assumes "0 < n" and "0 < d" and "round64 s n d = Inf t"
  shows "t = s" and "2 ^ 1024 - 2 ^ 970 \<le> real_of_int n / real_of_int d"
proof -
  obtain m0 e0 where e0: "- 1074 \<le> e0" and m0: "0 \<le> m0" "m0 \<le> 2 ^ 53"
    and normal: "2 ^ 52 \<le> m0 \<or> e0 = - 1074"
    and leading: "2 powi (e0 + 52) \<le> real_of_int n / real_of_int d \<or> e0 = - 1074"
    and err: "\<bar>real_of_int n / real_of_int d - real_of_int m0 * 2 powi e0\<bar> \<le> 2 powi e0 / 2"
    and tie: "\<bar>real_of_int n / real_of_int d - real_of_int m0 * 2 powi e0\<bar> = 2 powi e0 / 2
         \<longrightarrow> even m0"
    and result: "round64 s n d =
      (if 971 < (if m0 = 2 ^ 53 then e0 + 1 else e0) then Inf s
       else Finite s (if m0 = 2 ^ 53 then 2 ^ 52 else m0) (if m0 = 2 ^ 53 then e0 + 1 else e0))"
    by (rule round64_spec [OF assms(1,2)])
  show "t = s"
    using assms(3) result by (simp split: if_splits)
  have large: "971 \<le> e0" and big: "2 ^ 53 \<le> m0 \<or> 972 \<le> e0"
    using assms(3) result m0(2) by (auto split: if_splits)
  show "2 ^ 1024 - 2 ^ 970 \<le> real_of_int n / real_of_int d"
  proof (cases "2 ^ 53 \<le> m0")
    case True
    have p971: "(2::real) powi 971 \<le> 2 powi e0"
      using large by (intro power_int_increasing) simp_all
    have "real_of_int m0 * 2 powi e0 - 2 powi e0 / 2 \<le> real_of_int n / real_of_int d"
      using err by linarith
    moreover have "(real_of_int m0 - 1 / 2) * 2 powi e0
        = real_of_int m0 * 2 powi e0 - 2 powi e0 / 2"
      by (simp add: algebra_simps)
    ultimately have lower:
      "(real_of_int m0 - 1 / 2) * 2 powi e0 \<le> real_of_int n / real_of_int d"
      by simp
    have "real_of_int (2 ^ 53) \<le> real_of_int m0"
      using True by (simp only: of_int_le_iff)
    then have "(2 ^ 53 - 1 / 2) * (2::real) powi 971 \<le> (real_of_int m0 - 1 / 2) * 2 powi e0"
      using p971 by (intro mult_mono) simp_all
    moreover have "(2 ^ 53 - 1 / 2) * (2::real) powi 971 = 2 ^ 1024 - 2 ^ 970"
      by (simp add: power_int_def algebra_simps)
    ultimately show ?thesis using lower by simp
  next
    case False
    then have e972: "972 \<le> e0" using big by simp
    then have "(2::real) powi 1024 \<le> 2 powi (e0 + 52)"
      by (intro power_int_increasing) simp_all
    moreover have "2 powi (e0 + 52) \<le> real_of_int n / real_of_int d"
      using leading e972 by auto
    ultimately have "(2::real) powi 1024 \<le> real_of_int n / real_of_int d"
      by simp
    then show ?thesis by (simp add: power_int_def)
  qed
qed

lemma pow2_real: "0 \<le> k \<Longrightarrow> real_of_int (pow2 k) = 2 powi k"
  by (simp add: pow2_def power_int_def)

lemma pow2_neg: "k \<le> 0 \<Longrightarrow> pow2 k = 1"
  by (simp add: pow2_def)

lemma scaled_value: "real_of_int (a * pow2 g) / real_of_int (pow2 (- g)) = real_of_int a * 2 powi g"
proof -
  have "real_of_int (a * pow2 g) / real_of_int (pow2 (- g))
      = real_of_int a * (real_of_int (pow2 g) / real_of_int (pow2 (- g)))"
    by simp
  then show ?thesis by (simp only: pow2_ratio)
qed

lemma pow2_shift: "g \<le> e \<Longrightarrow> real_of_int (pow2 (e - g)) * 2 powi g = 2 powi e"
  using power_int_add [of "2::real" "e - g" g] by (simp add: pow2_real)

lemma shifted_value:
  "g \<le> e \<Longrightarrow> real_of_int (m * pow2 (e - g)) * 2 powi g = real_of_int m * 2 powi e"
proof -
  assume "g \<le> e"
  then have "real_of_int m * (real_of_int (pow2 (e - g)) * 2 powi g) = real_of_int m * 2 powi e"
    by (simp only: pow2_shift)
  then show ?thesis by (simp add: mult.assoc)
qed

lemma signed_abs: "signed (a < 0) \<bar>a\<bar> = a"
  by (simp add: signed_def)

lemma signed_mult: "signed s m * signed t n = signed (s \<noteq> t) (m * n)"
  by (simp add: signed_def)

lemma is_finite64_zero: "is_finite64 (Finite s 0 (- 1074))"
  by (simp add: is_finite64_def)

text \<open>The exact sum and the exact product of two finite values.\<close>

lemma f64_add_exact:
  fixes s t :: bool and m e n f :: int
  defines "g \<equiv> min e f"
  defines "a \<equiv> signed s (m * pow2 (e - g)) + signed t (n * pow2 (f - g))"
  shows "valof (Finite s m e) + valof (Finite t n f) = real_of_int a * 2 powi g"
proof -
  have g: "g \<le> e" "g \<le> f" by (simp_all add: g_def)
  have sm: "signed s (m * pow2 (e - g)) = signed s m * pow2 (e - g)"
    and tn: "signed t (n * pow2 (f - g)) = signed t n * pow2 (f - g)"
    by (simp_all add: signed_def)
  have "real_of_int a * 2 powi g
      = real_of_int (signed s m * pow2 (e - g)) * 2 powi g
        + real_of_int (signed t n * pow2 (f - g)) * 2 powi g"
    by (simp add: a_def sm tn distrib_right)
  also have "\<dots> = real_of_int (signed s m) * 2 powi e + real_of_int (signed t n) * 2 powi f"
    by (simp only: shifted_value [OF g(1)] shifted_value [OF g(2)])
  finally show ?thesis
    by (simp add: valof_def)
qed

lemma f64_mul_exact:
  "valof (Finite s m e) * valof (Finite t n f)
     = real_of_int (signed (s \<noteq> t) (m * n)) * 2 powi (e + f)"
proof -
  have "valof (Finite s m e) * valof (Finite t n f)
      = real_of_int (signed s m * signed t n) * (2 powi e * 2 powi f)"
    by (simp add: valof_def)
  also have "2 powi e * 2 powi f = (2::real) powi (e + f)"
    using power_int_add [of "2::real" e f] by simp
  finally show ?thesis by (simp only: signed_mult)
qed

text \<open>The constants of the two conversions: 1.8, 32 and 273 as \<^verbatim>\<open>float64\<close>.\<close>

lemma const_18_10: "f64_const 18 10 = Finite False 8106479329266893 (- 52)"
  by code_simp

lemma const_32: "f64_const 32 1 = Finite False 4503599627370496 (- 47)"
  by code_simp

lemma const_273: "f64_const 273 1 = Finite False 4802666790125568 (- 44)"
  by code_simp

lemma valof_273: "valof (f64_const 273 1) = 273"
  by (simp add: const_273 valof_def signed_def power_int_minus_divide)

lemma valof_32: "valof (f64_const 32 1) = 32"
  by (simp add: const_32 valof_def signed_def power_int_minus_divide)

lemma valof_18_10: "\<bar>valof (f64_const 18 10) - 18 / 10\<bar> \<le> 2 powi (- 53)"
  by (simp add: const_18_10 valof_def signed_def power_int_minus_divide)

lemma round64_not_NaN: "round64 s n d \<noteq> NaN"
  by (simp add: round64_def Let_def)

lemma f64_add_Finite_not_NaN: "x \<noteq> NaN \<Longrightarrow> f64_add x (Finite t n f) \<noteq> NaN"
  by (cases x) (simp_all add: round64_not_NaN Let_def)

text \<open>
  No finite value exceeds the largest one, \<open>2\<^sup>1\<^sup>0\<^sup>2\<^sup>4 - 2\<^sup>9\<^sup>7\<^sup>1\<close>.
\<close>

lemma valof_bound:
  assumes "is_finite64 (Finite s m e)"
  shows "\<bar>valof (Finite s m e)\<bar> \<le> 2 ^ 1024 - 2 ^ 971"
proof -
  have m: "0 \<le> m" "m \<le> 2 ^ 53 - 1" and e: "e \<le> 971"
    using assms by (simp_all add: is_finite64_def)
  have "real_of_int m \<le> real_of_int (2 ^ 53 - 1)"
    using m(2) by (simp only: of_int_le_iff)
  then have m': "real_of_int m \<le> 2 ^ 53 - 1" by simp
  have p: "(2::real) powi e \<le> 2 powi 971"
    using e by (intro power_int_increasing) simp_all
  have "\<bar>valof (Finite s m e)\<bar> = real_of_int m * 2 powi e"
    using m(1) by (simp add: valof_def signed_def abs_mult)
  also have "\<dots> \<le> (2 ^ 53 - 1) * 2 powi 971"
    using m' p m(1) by (intro mult_mono) simp_all
  also have "\<dots> = 2 ^ 1024 - 2 ^ 971"
    by (simp add: power_int_def algebra_simps)
  finally show ?thesis .
qed

lemma f64_mul_Finite_not_NaN: "f64_mul (Finite s m e) (Finite t n f) \<noteq> NaN"
  by (simp add: round64_not_NaN)

lemma f64_fma_Finite_not_NaN: "f64_fma (Finite s m e) (Finite t n f) (Finite u k h) \<noteq> NaN"
  by (simp add: round64_not_NaN Let_def)

lemma f64_eq_refl: "x \<noteq> NaN \<Longrightarrow> f64_eq x x"
  by (cases x) simp_all

lemma is_finite64_cases:
  assumes "is_finite64 x"
  obtains s m e where "x = Finite s m e" and "0 \<le> m"
  using assms by (cases x) (simp_all add: is_finite64_def)

text \<open>
  A finite result comes only from below the midpoint between the largest finite value and
  \<open>2\<^sup>1\<^sup>0\<^sup>2\<^sup>4\<close>: the midpoint itself is a tie between an odd significand and the
  even one that overflows.
\<close>

lemma round64_below_overflow:
  assumes "0 < n" and "0 < d" and "round64 s n d = Finite t m e"
  shows "real_of_int n / real_of_int d < 2 ^ 1024 - 2 ^ 970"
proof -
  obtain m0 e0 where e0: "- 1074 \<le> e0" and m0: "0 \<le> m0" "m0 \<le> 2 ^ 53"
    and normal: "2 ^ 52 \<le> m0 \<or> e0 = - 1074"
    and leading: "2 powi (e0 + 52) \<le> real_of_int n / real_of_int d \<or> e0 = - 1074"
    and err: "\<bar>real_of_int n / real_of_int d - real_of_int m0 * 2 powi e0\<bar> \<le> 2 powi e0 / 2"
    and tie: "\<bar>real_of_int n / real_of_int d - real_of_int m0 * 2 powi e0\<bar> = 2 powi e0 / 2
         \<longrightarrow> even m0"
    and result: "round64 s n d =
      (if 971 < (if m0 = 2 ^ 53 then e0 + 1 else e0) then Inf s
       else Finite s (if m0 = 2 ^ 53 then 2 ^ 52 else m0) (if m0 = 2 ^ 53 then e0 + 1 else e0))"
    by (rule round64_spec [OF assms(1,2)])
  define q where "q = real_of_int n / real_of_int d"
  define P where "P = (2::real) powi e0"
  define B where "B = (2::real) powi 971"
  define M where "M = real_of_int m0"
  have Ppos: "0 < P" by (simp add: P_def)
  have Bpos: "0 < B" by (simp add: B_def)
  have T: "2 ^ 1024 - 2 ^ 970 = (2 ^ 53 - 1 / 2) * B"
    by (simp add: B_def power_int_def algebra_simps)
  have err': "\<bar>q - M * P\<bar> \<le> P / 2"
    using err by (simp only: q_def P_def M_def)
  have tie': "\<bar>q - M * P\<bar> = P / 2 \<longrightarrow> even m0"
    using tie by (simp only: q_def P_def M_def)
  have M0: "0 \<le> M" using m0(1) by (simp add: M_def)
  have "q < (2 ^ 53 - 1 / 2) * B"
  proof (cases "m0 = 2 ^ 53")
    case True
    then have "e0 + 1 \<le> 971"
      using assms(3) result by (simp split: if_splits)
    then have "e0 \<le> 970" by simp
    then have "(2::real) powi e0 \<le> 2 powi 970"
      by (intro power_int_increasing) simp_all
    also have "(2::real) powi 970 = B / 2"
      by (simp add: B_def power_int_def)
    finally have PB: "P \<le> B / 2" by (simp only: P_def)
    have M: "M = 2 ^ 53" using True by (simp add: M_def)
    have "q \<le> M * P + P / 2" using err' by linarith
    also have "\<dots> = (2 ^ 53 + 1 / 2) * P" by (simp add: M algebra_simps)
    also have "\<dots> \<le> (2 ^ 53 + 1 / 2) * (B / 2)"
      using PB by (intro mult_left_mono) simp_all
    also have "\<dots> < (2 ^ 53 - 1 / 2) * B"
      using Bpos by (simp add: algebra_simps)
    finally show ?thesis .
  next
    case False
    then have "e0 \<le> 971"
      using assms(3) result by (simp split: if_splits)
    then have "(2::real) powi e0 \<le> 2 powi 971"
      by (intro power_int_increasing) simp_all
    then have PB: "P \<le> B" by (simp only: P_def B_def)
    have "m0 \<le> 2 ^ 53 - 1" using m0(2) False by simp
    then have "real_of_int m0 \<le> real_of_int (2 ^ 53 - 1)" by (simp only: of_int_le_iff)
    then have M: "M \<le> 2 ^ 53 - 1" by (simp add: M_def)
    show ?thesis
    proof (cases "\<bar>q - M * P\<bar> = P / 2")
      case True
      then have "even m0" using tie' by simp
      moreover have "odd (2 ^ 53 - 1 :: int)" by simp
      ultimately have "m0 \<noteq> 2 ^ 53 - 1" by metis
      then have "m0 \<le> 2 ^ 53 - 2" using \<open>m0 \<le> 2 ^ 53 - 1\<close> by simp
      then have "real_of_int m0 \<le> real_of_int (2 ^ 53 - 2)" by (simp only: of_int_le_iff)
      then have M2: "M \<le> 2 ^ 53 - 2" by (simp add: M_def)
      have "q \<le> M * P + P / 2" using err' by linarith
      also have "\<dots> = (M + 1 / 2) * P" by (simp add: algebra_simps)
      also have "\<dots> \<le> (2 ^ 53 - 3 / 2) * B"
        using M2 PB M0 Ppos by (intro mult_mono) simp_all
      also have "\<dots> < (2 ^ 53 - 1 / 2) * B"
        using Bpos by (simp add: algebra_simps)
      finally show ?thesis .
    next
      case False
      then have "\<bar>q - M * P\<bar> < P / 2" using err' by linarith
      then have "q < M * P + P / 2" by linarith
      also have "\<dots> = (M + 1 / 2) * P" by (simp add: algebra_simps)
      also have "\<dots> \<le> (2 ^ 53 - 1 / 2) * B"
        using M PB M0 Ppos by (intro mult_mono) simp_all
      finally show ?thesis .
    qed
  qed
  then show ?thesis by (simp only: T q_def)
qed

text \<open>
  A finite result that is exactly half a unit away from the fraction has an even
  significand, and a result that is a power of two above the fraction, where the values
  below are twice as dense, is within a quarter of a unit.
\<close>

lemma round64_tie_even:
  assumes "0 < n" and "0 < d" and "round64 s n d = Finite t m e"
    and "\<bar>real_of_int n / real_of_int d - real_of_int m * 2 powi e\<bar> = 2 powi e / 2"
  shows "even m"
proof -
  obtain m0 e0 where e0: "- 1074 \<le> e0" and m0: "0 \<le> m0" "m0 \<le> 2 ^ 53"
    and normal: "2 ^ 52 \<le> m0 \<or> e0 = - 1074"
    and leading: "2 powi (e0 + 52) \<le> real_of_int n / real_of_int d \<or> e0 = - 1074"
    and err: "\<bar>real_of_int n / real_of_int d - real_of_int m0 * 2 powi e0\<bar> \<le> 2 powi e0 / 2"
    and tie: "\<bar>real_of_int n / real_of_int d - real_of_int m0 * 2 powi e0\<bar> = 2 powi e0 / 2
         \<longrightarrow> even m0"
    and result: "round64 s n d =
      (if 971 < (if m0 = 2 ^ 53 then e0 + 1 else e0) then Inf s
       else Finite s (if m0 = 2 ^ 53 then 2 ^ 52 else m0) (if m0 = 2 ^ 53 then e0 + 1 else e0))"
    by (rule round64_spec [OF assms(1,2)])
  show ?thesis
  proof (cases "m0 = 2 ^ 53")
    case True
    then have "m = 2 ^ 52"
      using assms(3) result by (simp split: if_splits)
    then show ?thesis by simp
  next
    case False
    then have "m = m0" "e = e0"
      using assms(3) result by (simp_all split: if_splits)
    then show ?thesis using tie assms(4) by simp
  qed
qed

lemma round64_power_of_two:
  assumes "0 < n" and "0 < d" and "round64 s n d = Finite t m e"
    and "m = 2 ^ 52" and "- 1074 < e"
    and "real_of_int n / real_of_int d < real_of_int m * 2 powi e"
  shows "\<bar>real_of_int n / real_of_int d - real_of_int m * 2 powi e\<bar> \<le> 2 powi e / 4"
proof -
  obtain m0 e0 where e0: "- 1074 \<le> e0" and m0: "0 \<le> m0" "m0 \<le> 2 ^ 53"
    and normal: "2 ^ 52 \<le> m0 \<or> e0 = - 1074"
    and leading: "2 powi (e0 + 52) \<le> real_of_int n / real_of_int d \<or> e0 = - 1074"
    and err: "\<bar>real_of_int n / real_of_int d - real_of_int m0 * 2 powi e0\<bar> \<le> 2 powi e0 / 2"
    and tie: "\<bar>real_of_int n / real_of_int d - real_of_int m0 * 2 powi e0\<bar> = 2 powi e0 / 2
         \<longrightarrow> even m0"
    and result: "round64 s n d =
      (if 971 < (if m0 = 2 ^ 53 then e0 + 1 else e0) then Inf s
       else Finite s (if m0 = 2 ^ 53 then 2 ^ 52 else m0) (if m0 = 2 ^ 53 then e0 + 1 else e0))"
    by (rule round64_spec [OF assms(1,2)])
  define q where "q = real_of_int n / real_of_int d"
  show ?thesis
  proof (cases "m0 = 2 ^ 53")
    case True
    then have me: "m = 2 ^ 52" "e = e0 + 1"
      using assms(3) result by (simp_all split: if_splits)
    have up: "(2::real) powi (e0 + 1) = 2 * 2 powi e0"
      by (rule power_int_add_1') simp
    have same: "real_of_int m * 2 powi e = real_of_int m0 * 2 powi e0"
      by (simp add: me True up)
    have "(2::real) powi e0 / 2 = 2 powi e / 4"
      by (simp add: me up)
    then show ?thesis
      using err by (simp add: same)
  next
    case False
    then have me: "m = m0" "e = e0"
      using assms(3) result by (simp_all split: if_splits)
    have "(2::real) powi (e0 + 52) = 2 powi 52 * 2 powi e0"
      using power_int_add [of "2::real" 52 e0] by (simp add: add.commute)
    then have "(2::real) powi (e0 + 52) = real_of_int m * 2 powi e"
      by (simp add: me [symmetric] assms(4))
    moreover have "2 powi (e0 + 52) \<le> real_of_int n / real_of_int d"
      using leading assms(5) me by auto
    ultimately have False using assms(6) by simp
    then show ?thesis ..
  qed
qed

text \<open>
  So \<open>round64\<close> is the rounding that IEEE 754 asks for: of the number
  \<open>\<plusminus> a \<times> 2\<^sup>g\<close>, as the operations below call it.
\<close>

lemma rounds_to_zero: "rounds_to 0 (Finite s 0 (- 1074))"
  by (simp add: rounds_to_def is_finite64_def valof_def signed_def)

lemma round64_rounds_to:
  assumes "0 < a"
  shows "rounds_to (real_of_int (signed s a) * 2 powi g) (round64 s (a * pow2 g) (pow2 (- g)))"
proof -
  define q where "q = real_of_int a * 2 powi g"
  define x where "x = real_of_int (signed s a) * 2 powi g"
  define r where "r = round64 s (a * pow2 g) (pow2 (- g))"
  have n: "0 < a * pow2 g" and d: "0 < pow2 (- g)"
    using assms pow2_pos by simp_all
  have frac: "real_of_int (a * pow2 g) / real_of_int (pow2 (- g)) = q"
    by (simp only: scaled_value q_def)
  have qpos: "0 < q"
    using assms by (simp add: q_def)
  have x: "x = (if s then - q else q)"
    by (simp add: x_def q_def signed_def)
  have absx: "\<bar>x\<bar> = q" and sign: "(x < 0) = s" and nz: "x \<noteq> 0"
    using qpos by (simp_all add: x)
  have "rounds_to x r"
  proof (cases r)
    case (Finite t m e)
    then have r: "round64 s (a * pow2 g) (pow2 (- g)) = Finite t m e"
      by (simp only: r_def)
    note c = round64_correct [OF n d r, unfolded frac]
    have ts: "t = s" by (rule c(1))
    have fin: "is_finite64 (Finite t m e)" by (rule c(2))
    have m: "0 \<le> m" using fin by (simp add: is_finite64_def)
    have below: "q < 2 ^ 1024 - 2 ^ 970"
      using round64_below_overflow [OF n d r] by (simp only: frac)
    have tie: "\<bar>q - real_of_int m * 2 powi e\<bar> = 2 powi e / 2 \<longrightarrow> even m"
      using round64_tie_even [OF n d r] by (simp only: frac) blast
    have boundary: "m = 2 ^ 52 \<and> - 1074 < e \<and> q < real_of_int m * 2 powi e
        \<longrightarrow> \<bar>q - real_of_int m * 2 powi e\<bar> \<le> 2 powi e / 4"
      using round64_power_of_two [OF n d r] by (simp only: frac) blast
    define v where "v = real_of_int m * 2 powi e"
    have vpos: "0 \<le> v" using m by (simp add: v_def)
    have val: "valof (Finite t m e) = (if s then - v else v)"
      by (simp add: valof_def signed_def ts v_def)
    have dist: "\<bar>x - valof (Finite t m e)\<bar> = \<bar>q - v\<bar>"
      by (simp add: x val abs_minus_commute)
    have absv: "\<bar>valof (Finite t m e)\<bar> = v"
      using vpos by (simp add: val)
    show ?thesis
      unfolding Finite rounds_to_def float64.case dist absx absv
      using fin below sign nz c(3) tie boundary ts
      by (simp only: v_def) simp
  next
    case (Inf t)
    then have r: "round64 s (a * pow2 g) (pow2 (- g)) = Inf t"
      by (simp only: r_def)
    note o = round64_overflow [OF n d r, unfolded frac]
    show ?thesis
      unfolding Inf rounds_to_def float64.case absx
      using o sign by simp
  next
    case NaN
    then show ?thesis
      using round64_not_NaN [of s "a * pow2 g" "pow2 (- g)"] by (simp add: r_def)
  qed
  then show ?thesis by (simp only: x_def r_def)
qed

text \<open>The three operations round their exact result.\<close>

lemma f64_add_rounds_to:
  "rounds_to (valof (Finite s m e) + valof (Finite t n f)) (f64_add (Finite s m e) (Finite t n f))"
proof -
  define g where "g = min e f"
  define a where "a = signed s (m * pow2 (e - g)) + signed t (n * pow2 (f - g))"
  have exact: "valof (Finite s m e) + valof (Finite t n f) = real_of_int a * 2 powi g"
    unfolding a_def g_def by (rule f64_add_exact)
  show ?thesis
  proof (cases "a = 0")
    case True
    then have "f64_add (Finite s m e) (Finite t n f) = Finite (s \<and> t) 0 (- 1074)"
      by (simp add: Let_def a_def g_def)
    then show ?thesis
      using rounds_to_zero True by (simp add: exact)
  next
    case False
    then have "f64_add (Finite s m e) (Finite t n f)
        = round64 (a < 0) (\<bar>a\<bar> * pow2 g) (pow2 (- g))"
      by (simp add: Let_def a_def g_def)
    moreover have "0 < \<bar>a\<bar>" using False by simp
    then have "rounds_to (real_of_int (signed (a < 0) \<bar>a\<bar>) * 2 powi g)
        (round64 (a < 0) (\<bar>a\<bar> * pow2 g) (pow2 (- g)))"
      by (rule round64_rounds_to)
    ultimately show ?thesis
      by (simp only: exact signed_abs)
  qed
qed

lemma f64_mul_rounds_to:
  assumes "0 \<le> m" and "0 \<le> n"
  shows "rounds_to (valof (Finite s m e) * valof (Finite t n f))
           (f64_mul (Finite s m e) (Finite t n f))"
proof (cases "m * n = 0")
  case True
  then have "f64_mul (Finite s m e) (Finite t n f) = Finite (s \<noteq> t) 0 (- 1074)"
    by (simp add: round64_def)
  moreover have "valof (Finite s m e) * valof (Finite t n f) = 0"
    using True by (auto simp: valof_def signed_def)
  ultimately show ?thesis
    using rounds_to_zero by (simp only:)
next
  case False
  then have "0 < m * n"
    using assms by (simp add: zero_less_mult_iff less_le)
  then have "rounds_to (real_of_int (signed (s \<noteq> t) (m * n)) * 2 powi (e + f))
      (round64 (s \<noteq> t) (m * n * pow2 (e + f)) (pow2 (- (e + f))))"
    by (rule round64_rounds_to)
  then show ?thesis
    by (simp only: f64_mul_exact f64_mul.simps)
qed

lemma f64_fma_rounds_to:
  "rounds_to (valof (Finite s m e) * valof (Finite t n f) + valof (Finite u k h))
     (f64_fma (Finite s m e) (Finite t n f) (Finite u k h))"
proof -
  define g where "g = min (e + f) h"
  define a where "a = signed (s \<noteq> t) (m * n * pow2 (e + f - g)) + signed u (k * pow2 (h - g))"
  have "valof (Finite (s \<noteq> t) (m * n) (e + f)) + valof (Finite u k h) = real_of_int a * 2 powi g"
    unfolding a_def g_def by (rule f64_add_exact)
  moreover have "valof (Finite (s \<noteq> t) (m * n) (e + f))
      = valof (Finite s m e) * valof (Finite t n f)"
    by (simp add: f64_mul_exact) (simp add: valof_def)
  ultimately have exact:
    "valof (Finite s m e) * valof (Finite t n f) + valof (Finite u k h) = real_of_int a * 2 powi g"
    by simp
  show ?thesis
  proof (cases "a = 0")
    case True
    then have "f64_fma (Finite s m e) (Finite t n f) (Finite u k h)
        = Finite ((s \<noteq> t) \<and> u) 0 (- 1074)"
      by (simp add: Let_def a_def g_def)
    then show ?thesis
      using rounds_to_zero True by (simp add: exact)
  next
    case False
    then have "f64_fma (Finite s m e) (Finite t n f) (Finite u k h)
        = round64 (a < 0) (\<bar>a\<bar> * pow2 g) (pow2 (- g))"
      by (simp add: Let_def a_def g_def)
    moreover have "0 < \<bar>a\<bar>" using False by simp
    then have "rounds_to (real_of_int (signed (a < 0) \<bar>a\<bar>) * 2 powi g)
        (round64 (a < 0) (\<bar>a\<bar> * pow2 g) (pow2 (- g)))"
      by (rule round64_rounds_to)
    ultimately show ?thesis
      by (simp only: exact signed_abs)
  qed
qed

text \<open>
  The predicate \<open>rounds_to\<close> leaves no choice: a real number other than zero has one
  rounding. (Zero has two, \<open>+0\<close> and \<open>-0\<close>, which Go's \<^verbatim>\<open>==\<close> does not tell apart.)
  First for the magnitudes, the result with the smaller exponent on the left.
\<close>

lemma nearest_unique:
  fixes q :: real
  assumes "is_finite64 (Finite s m e)" and "is_finite64 (Finite t n f)"
    and "e \<le> f"
    and "\<bar>q - real_of_int m * 2 powi e\<bar> \<le> 2 powi e / 2"
    and "\<bar>q - real_of_int n * 2 powi f\<bar> \<le> 2 powi f / 2"
    and "\<bar>q - real_of_int m * 2 powi e\<bar> = 2 powi e / 2 \<longrightarrow> even m"
    and "\<bar>q - real_of_int n * 2 powi f\<bar> = 2 powi f / 2 \<longrightarrow> even n"
    and "n = 2 ^ 52 \<and> - 1074 < f \<and> q < real_of_int n * 2 powi f
         \<longrightarrow> \<bar>q - real_of_int n * 2 powi f\<bar> \<le> 2 powi f / 4"
  shows "m = n \<and> e = f"
proof -
  define P where "P = (2::real) powi e"
  define R where "R = (2::real) powi f"
  define M where "M = real_of_int m"
  define N where "N = real_of_int n"
  have Ppos: "0 < P" and Rpos: "0 < R"
    by (simp_all add: P_def R_def)
  have m: "0 \<le> m" "m \<le> 2 ^ 53 - 1" and e: "- 1074 \<le> e"
    using assms(1) by (simp_all add: is_finite64_def)
  have n: "0 \<le> n" "n \<le> 2 ^ 53 - 1" and normal: "2 ^ 52 \<le> n \<or> f = - 1074"
    using assms(2) by (simp_all add: is_finite64_def)
  have "real_of_int m \<le> real_of_int (2 ^ 53 - 1)"
    using m(2) by (simp only: of_int_le_iff)
  then have M: "M \<le> 9007199254740991" by (simp add: M_def)
  have dm: "\<bar>q - M * P\<bar> \<le> P / 2"
    using assms(4) by (simp only: M_def P_def)
  have dn: "\<bar>q - N * R\<bar> \<le> R / 2"
    using assms(5) by (simp only: N_def R_def)
  have tm: "\<bar>q - M * P\<bar> = P / 2 \<longrightarrow> even m"
    using assms(6) by (simp only: M_def P_def)
  have tn: "\<bar>q - N * R\<bar> = R / 2 \<longrightarrow> even n"
    using assms(7) by (simp only: N_def R_def)
  have bn: "n = 2 ^ 52 \<and> - 1074 < f \<and> q < N * R \<longrightarrow> \<bar>q - N * R\<bar> \<le> R / 4"
    using assms(8) by (simp only: N_def R_def)
  show ?thesis
  proof (cases "e = f")
    case True
    then have R: "R = P" by (simp add: R_def P_def)
    have "m = n"
    proof (rule ccontr)
      assume differ: "m \<noteq> n"
      consider "m + 1 \<le> n" | "n + 1 \<le> m" using differ by linarith
      then show False
      proof cases
        case 1
        then have "real_of_int (m + 1) \<le> real_of_int n" by (simp only: of_int_le_iff)
        then have "M + 1 \<le> N" by (simp add: M_def N_def)
        then have "(M + 1) * P \<le> N * P"
          using Ppos by (intro mult_right_mono) simp_all
        then have up: "M * P + P \<le> N * P" by (simp add: algebra_simps)
        have dn': "\<bar>q - N * P\<bar> \<le> P / 2" using dn by (simp only: R)
        have eq: "N * P = M * P + P" using up dm dn' by linarith
        then have "(M + 1) * P = N * P" by (simp add: algebra_simps)
        then have "M + 1 = N" using Ppos by simp
        then have "real_of_int (m + 1) = real_of_int n" by (simp add: M_def N_def)
        then have succ: "n = m + 1" by (simp only: of_int_eq_iff)
        have "\<bar>q - M * P\<bar> = P / 2" using eq dm dn' by linarith
        then have "even m" using tm by simp
        moreover have "\<bar>q - N * P\<bar> = P / 2" using eq dm dn' by linarith
        then have "even n" using tn by (simp add: R)
        ultimately show False using succ by simp
      next
        case 2
        then have "real_of_int (n + 1) \<le> real_of_int m" by (simp only: of_int_le_iff)
        then have "N + 1 \<le> M" by (simp add: M_def N_def)
        then have "(N + 1) * P \<le> M * P"
          using Ppos by (intro mult_right_mono) simp_all
        then have up: "N * P + P \<le> M * P" by (simp add: algebra_simps)
        have dn': "\<bar>q - N * P\<bar> \<le> P / 2" using dn by (simp only: R)
        have eq: "M * P = N * P + P" using up dm dn' by linarith
        then have "(N + 1) * P = M * P" by (simp add: algebra_simps)
        then have "N + 1 = M" using Ppos by simp
        then have "real_of_int (n + 1) = real_of_int m" by (simp add: M_def N_def)
        then have succ: "m = n + 1" by (simp only: of_int_eq_iff)
        have "\<bar>q - M * P\<bar> = P / 2" using eq dm dn' by linarith
        then have "even m" using tm by simp
        moreover have "\<bar>q - N * P\<bar> = P / 2" using eq dm dn' by linarith
        then have "even n" using tn by (simp add: R)
        ultimately show False using succ by simp
      qed
    qed
    then show ?thesis using True by simp
  next
    case False
    then have lt: "e + 1 \<le> f" using assms(3) by simp
    have up: "(2::real) powi (e + 1) = 2 * 2 powi e"
      by (rule power_int_add_1') simp
    have "(2::real) powi (e + 1) \<le> 2 powi f"
      using lt by (intro power_int_increasing) simp_all
    then have PR: "2 * P \<le> R" by (simp add: up P_def R_def)
    have f: "- 1074 < f" using lt e by simp
    then have "2 ^ 52 \<le> n" using normal by simp
    then have "real_of_int (2 ^ 52) \<le> real_of_int n" by (simp only: of_int_le_iff)
    then have N: "4503599627370496 \<le> N" by (simp add: N_def)
    have "M * P \<le> 9007199254740991 * P"
      using M Ppos by (intro mult_right_mono) simp_all
    then have qub: "q \<le> 9007199254740991 * P + P / 2" using dm by linarith
    have "4503599627370496 * R \<le> N * R"
      using N Rpos by (intro mult_right_mono) simp_all
    then have below: "q < N * R" using qub PR Ppos by linarith
    have False
    proof (cases "n = 2 ^ 52")
      case n52: True
      then have NR: "N * R = 4503599627370496 * R" by (simp add: N_def)
      have quarter: "\<bar>q - N * R\<bar> \<le> R / 4"
        using bn n52 f below by simp
      show False
      proof (cases "e + 2 \<le> f")
        case True
        have "(2::real) powi (e + 2) = 2 powi 2 * 2 powi e"
          using power_int_add [of "2::real" 2 e] by (simp add: add.commute)
        moreover have "(2::real) powi (e + 2) \<le> 2 powi f"
          using True by (intro power_int_increasing) simp_all
        ultimately have "4 * P \<le> R" by (simp add: P_def R_def)
        then show False using quarter NR qub Ppos by linarith
      next
        case False
        then have "f = e + 1" using lt by simp
        then have R2: "R = 2 * P" by (simp add: R_def P_def up)
        have qeq: "q = 9007199254740991 * P + P / 2"
          using quarter NR qub R2 by linarith
        have "9007199254740991 * P \<le> M * P" using qeq dm by linarith
        then have "9007199254740991 \<le> M" using Ppos by simp
        then have "M = 9007199254740991" using M by simp
        then have "real_of_int m = real_of_int 9007199254740991" by (simp add: M_def)
        then have odd: "m = 9007199254740991" by (simp only: of_int_eq_iff)
        have "M * P = 9007199254740991 * P" using \<open>M = 9007199254740991\<close> by simp
        then have "\<bar>q - M * P\<bar> = P / 2" using qeq Ppos by simp
        then have "even m" using tm by simp
        then show False by (simp add: odd)
      qed
    next
      case False
      then have "2 ^ 52 + 1 \<le> n" using \<open>2 ^ 52 \<le> n\<close> by simp
      then have "real_of_int (2 ^ 52 + 1) \<le> real_of_int n" by (simp only: of_int_le_iff)
      then have "4503599627370497 \<le> N" by (simp add: N_def)
      then have "4503599627370497 * R \<le> N * R"
        using Rpos by (intro mult_right_mono) simp_all
      then show False using dn qub PR Ppos by linarith
    qed
    then show ?thesis ..
  qed
qed

lemma rounds_to_magnitude:
  assumes "rounds_to x (Finite s m e)" and "x \<noteq> 0"
  shows "is_finite64 (Finite s m e)"
    and "\<bar>\<bar>x\<bar> - real_of_int m * 2 powi e\<bar> \<le> 2 powi e / 2"
    and "\<bar>\<bar>x\<bar> - real_of_int m * 2 powi e\<bar> = 2 powi e / 2 \<longrightarrow> even m"
    and "m = 2 ^ 52 \<and> - 1074 < e \<and> \<bar>x\<bar> < real_of_int m * 2 powi e
         \<longrightarrow> \<bar>\<bar>x\<bar> - real_of_int m * 2 powi e\<bar> \<le> 2 powi e / 4"
    and "s = (x < 0)"
proof -
  define v where "v = real_of_int m * 2 powi e"
  have fin: "is_finite64 (Finite s m e)"
    using assms(1) by (simp add: rounds_to_def)
  have sign: "s = (x < 0)"
    using assms by (simp add: rounds_to_def)
  have "0 \<le> m" using fin by (simp add: is_finite64_def)
  then have vpos: "0 \<le> v" by (simp add: v_def)
  have val: "valof (Finite s m e) = (if x < 0 then - v else v)"
    by (simp add: valof_def signed_def sign v_def)
  have dist: "\<bar>x - valof (Finite s m e)\<bar> = \<bar>\<bar>x\<bar> - v\<bar>"
  proof (cases "x < 0")
    case True
    then have "x - valof (Finite s m e) = - (\<bar>x\<bar> - v)"
      by (simp add: val)
    then show ?thesis
      by (simp only: abs_minus)
  next
    case False
    then have "x - valof (Finite s m e) = \<bar>x\<bar> - v"
      by (simp add: val)
    then show ?thesis
      by (simp only:)
  qed
  have absv: "\<bar>valof (Finite s m e)\<bar> = v"
    using vpos by (simp add: val)
  have all: "\<bar>\<bar>x\<bar> - v\<bar> \<le> 2 powi e / 2
      \<and> (\<bar>\<bar>x\<bar> - v\<bar> = 2 powi e / 2 \<longrightarrow> even m)
      \<and> (m = 2 ^ 52 \<and> - 1074 < e \<and> \<bar>x\<bar> < v \<longrightarrow> \<bar>\<bar>x\<bar> - v\<bar> \<le> 2 powi e / 4)"
    using assms(1) unfolding rounds_to_def float64.case dist absv by simp
  show "is_finite64 (Finite s m e)" by (rule fin)
  show "s = (x < 0)" by (rule sign)
  show "\<bar>\<bar>x\<bar> - real_of_int m * 2 powi e\<bar> \<le> 2 powi e / 2"
    using all unfolding v_def by blast
  show "\<bar>\<bar>x\<bar> - real_of_int m * 2 powi e\<bar> = 2 powi e / 2 \<longrightarrow> even m"
    using all unfolding v_def by blast
  show "m = 2 ^ 52 \<and> - 1074 < e \<and> \<bar>x\<bar> < real_of_int m * 2 powi e
      \<longrightarrow> \<bar>\<bar>x\<bar> - real_of_int m * 2 powi e\<bar> \<le> 2 powi e / 4"
    using all unfolding v_def by blast
qed

lemma rounds_to_unique:
  assumes "rounds_to x r" and "rounds_to x r'" and "x \<noteq> 0"
  shows "r = r'"
proof (cases r)
  case r: (Finite s m e)
  show ?thesis
  proof (cases r')
    case r': (Finite t n f)
    note a = rounds_to_magnitude [OF assms(1) [unfolded r] assms(3)]
    note b = rounds_to_magnitude [OF assms(2) [unfolded r'] assms(3)]
    have "m = n \<and> e = f"
    proof (cases "e \<le> f")
      case True
      show ?thesis
        by (rule nearest_unique [OF a(1) b(1) True a(2) b(2) a(3) b(3) b(4)])
    next
      case False
      then have "f \<le> e" by simp
      then have "n = m \<and> f = e"
        by (rule nearest_unique [OF b(1) a(1) _ b(2) a(2) b(3) a(3) a(4)])
      then show ?thesis by simp
    qed
    then show ?thesis
      using a(5) b(5) by (simp add: r r')
  next
    case (Inf t)
    then show ?thesis
      using assms(1,2) by (simp add: r rounds_to_def)
  next
    case NaN
    then show ?thesis
      using assms(2) by (simp add: rounds_to_def)
  qed
next
  case r: (Inf s)
  show ?thesis
  proof (cases r')
    case (Finite t n f)
    then show ?thesis
      using assms(1,2) by (simp add: r rounds_to_def)
  next
    case (Inf t)
    then show ?thesis
      using assms(1,2) by (simp add: r rounds_to_def)
  next
    case NaN
    then show ?thesis
      using assms(2) by (simp add: rounds_to_def)
  qed
next
  case NaN
  then show ?thesis
    using assms(1) by (simp add: rounds_to_def)
qed

section \<open>Properties of the temperature conversion\<close>

text \<open>
  The arithmetic on known values: 0.1, 0.1 + 0.2 (which is 0.30000000000000004 and not
  0.3), the product 28.5 \<times> 1.8, the smallest subnormal number, the tie below it that
  goes to the even zero, and the tie above the largest finite number that overflows.
\<close>

lemma binary64_examples:
  "f64_const 1 10 = Finite False 7205759403792794 (- 56)"
  "f64_add (f64_const 1 10) (f64_const 2 10) = f64_const 30000000000000004 100000000000000000"
  "f64_add (f64_const 1 10) (f64_const 2 10) \<noteq> f64_const 3 10"
  "f64_mul (f64_const 285 10) (f64_const 18 10) = f64_const 51300000000000004 1000000000000000"
  "f64_const 1 (2 ^ 1074) = Finite False 1 (- 1074)"
  "f64_const 1 (2 ^ 1075) = Finite False 0 (- 1074)"
  "f64_const (2 ^ 1024 - 2 ^ 970) 1 = Inf False"
  by code_simp+

lemma f64_mul_Finite_cases:
  "(\<exists>u k h. f64_mul (Finite s m e) (Finite t n f) = Finite u k h)
   \<or> (\<exists>u. f64_mul (Finite s m e) (Finite t n f) = Inf u)"
  by (cases "f64_mul (Finite s m e) (Finite t n f)") (simp_all add: round64_not_NaN)

lemma celsiusToFahrenheit_not_NaN:
  "celsiusToFahrenheit fused (Finite s m e) \<noteq> NaN"
proof (cases fused)
  case True
  then show ?thesis
    by (simp only: celsiusToFahrenheit_def go_mul_add_def const_18_10 const_32 if_True
        f64_fma_Finite_not_NaN not_False_eq_True)
next
  case False
  have "f64_mul (Finite s m e) (Finite False 8106479329266893 (- 52)) \<noteq> NaN"
    using f64_mul_Finite_cases [of s m e False 8106479329266893 "- 52"] by auto
  then have "f64_add (f64_mul (Finite s m e) (Finite False 8106479329266893 (- 52)))
      (Finite False 4503599627370496 (- 47)) \<noteq> NaN"
    by (rule f64_add_Finite_not_NaN)
  with False show ?thesis
    by (simp only: celsiusToFahrenheit_def go_mul_add_def const_18_10 const_32 if_False
        not_False_eq_True)
qed

lemma celsiusToKelvin_not_NaN: "celsiusToKelvin (Finite s m e) \<noteq> NaN"
  unfolding celsiusToKelvin_def const_273
  by (rule f64_add_Finite_not_NaN) simp

text \<open>
  The two conversions against the real numbers. The Kelvin conversion never overflows.
\<close>

lemma rounds_to_finite:
  "rounds_to x r \<Longrightarrow> \<bar>x\<bar> < 2 ^ 1024 - 2 ^ 970 \<Longrightarrow> is_finite64 r"
  by (cases r) (simp_all add: rounds_to_def)

lemma below_overflow:
  assumes "is_finite64 (Finite s m e)" and "\<bar>y\<bar> \<le> 273"
  shows "\<bar>valof (Finite s m e) + y\<bar> < 2 ^ 1024 - 2 ^ 970"
proof -
  define A :: real where "A = 2 ^ 970"
  have A: "273 < A" by (simp add: A_def)
  have "\<bar>valof (Finite s m e)\<bar> \<le> 2 ^ 1024 - 2 ^ 971"
    using assms(1) by (rule valof_bound)
  moreover have "(2::real) ^ 1024 - 2 ^ 971 = 2 ^ 1024 - 2 ^ 970 - A"
    by (simp add: A_def)
  ultimately have "\<bar>valof (Finite s m e)\<bar> \<le> 2 ^ 1024 - 2 ^ 970 - A"
    by (simp only:)
  then show ?thesis
    using A assms(2) by linarith
qed

lemma celsiusToKelvin_rounds_to:
  assumes "is_finite64 c"
  shows "rounds_to (valof c + 273) (celsiusToKelvin c)"
    and "is_finite64 (celsiusToKelvin c)"
proof -
  obtain s m e where c: "c = Finite s m e"
    using assms by (rule is_finite64_cases)
  have v: "valof (Finite False 4802666790125568 (- 44)) = 273"
    using valof_273 by (simp only: const_273)
  have "rounds_to (valof (Finite s m e) + valof (Finite False 4802666790125568 (- 44)))
      (f64_add (Finite s m e) (Finite False 4802666790125568 (- 44)))"
    by (rule f64_add_rounds_to)
  then show r: "rounds_to (valof c + 273) (celsiusToKelvin c)"
    by (simp only: c v celsiusToKelvin_def const_273)
  have "\<bar>valof c + 273\<bar> < 2 ^ 1024 - 2 ^ 970"
    unfolding c by (rule below_overflow) (use assms c in simp_all)
  with r show "is_finite64 (celsiusToKelvin c)"
    by (rule rounds_to_finite)
qed

lemma celsiusToFahrenheit_fused_rounds_to:
  assumes "is_finite64 c"
  shows "rounds_to (valof c * valof (f64_const 18 10) + 32) (celsiusToFahrenheit True c)"
proof -
  obtain s m e where c: "c = Finite s m e"
    using assms by (rule is_finite64_cases)
  have v: "valof (Finite False 4503599627370496 (- 47)) = 32"
    using valof_32 by (simp only: const_32)
  have "rounds_to (valof (Finite s m e) * valof (Finite False 8106479329266893 (- 52))
        + valof (Finite False 4503599627370496 (- 47)))
      (f64_fma (Finite s m e) (Finite False 8106479329266893 (- 52))
        (Finite False 4503599627370496 (- 47)))"
    by (rule f64_fma_rounds_to)
  then show ?thesis
    by (simp only: c v celsiusToFahrenheit_def go_mul_add_def const_18_10 const_32 if_True)
qed

text \<open>
  Without fusion the product is rounded first. When it overflows, the result is that
  infinity; when it does not, the sum with 32 is rounded and does not overflow either.
\<close>

lemma celsiusToFahrenheit_product_rounds_to:
  assumes "is_finite64 c"
  shows "rounds_to (valof c * valof (f64_const 18 10)) (f64_mul c (f64_const 18 10))"
proof -
  obtain s m e where c: "c = Finite s m e" and m: "0 \<le> m"
    using assms by (rule is_finite64_cases)
  have "rounds_to (valof (Finite s m e) * valof (Finite False 8106479329266893 (- 52)))
      (f64_mul (Finite s m e) (Finite False 8106479329266893 (- 52)))"
    using m by (rule f64_mul_rounds_to) simp
  then show ?thesis
    by (simp only: c const_18_10)
qed

lemma celsiusToFahrenheit_sum_rounds_to:
  assumes "is_finite64 (f64_mul c (f64_const 18 10))"
  shows "rounds_to (valof (f64_mul c (f64_const 18 10)) + 32) (celsiusToFahrenheit False c)"
    and "is_finite64 (celsiusToFahrenheit False c)"
proof -
  obtain u k h where p: "f64_mul c (f64_const 18 10) = Finite u k h"
    using assms by (rule is_finite64_cases)
  have v: "valof (Finite False 4503599627370496 (- 47)) = 32"
    using valof_32 by (simp only: const_32)
  have "rounds_to (valof (Finite u k h) + valof (Finite False 4503599627370496 (- 47)))
      (f64_add (Finite u k h) (Finite False 4503599627370496 (- 47)))"
    by (rule f64_add_rounds_to)
  then have "rounds_to (valof (Finite u k h) + 32)
      (f64_add (f64_mul c (f64_const 18 10)) (f64_const 32 1))"
    by (simp only: v p const_32)
  then show r: "rounds_to (valof (f64_mul c (f64_const 18 10)) + 32)
      (celsiusToFahrenheit False c)"
    by (simp only: p celsiusToFahrenheit_def go_mul_add_def if_False)
  have "\<bar>valof (Finite u k h) + 32\<bar> < 2 ^ 1024 - 2 ^ 970"
    by (rule below_overflow) (use assms p in simp_all)
  then have "\<bar>valof (f64_mul c (f64_const 18 10)) + 32\<bar> < 2 ^ 1024 - 2 ^ 970"
    by (simp only: p)
  with r show "is_finite64 (celsiusToFahrenheit False c)"
    by (rule rounds_to_finite)
qed

lemma celsiusToFahrenheit_product_overflow:
  assumes "is_finite64 c" and "\<not> is_finite64 (f64_mul c (f64_const 18 10))"
  shows "celsiusToFahrenheit False c = f64_mul c (f64_const 18 10)"
proof -
  define p where "p = f64_mul c (f64_const 18 10)"
  have r: "rounds_to (valof c * valof (f64_const 18 10)) p"
    unfolding p_def using assms(1) by (rule celsiusToFahrenheit_product_rounds_to)
  have "\<exists>u. p = Inf u"
  proof (cases p)
    case (Finite u k h)
    then have "is_finite64 p" using r by (simp add: rounds_to_def)
    then show ?thesis using assms(2) by (simp add: p_def)
  next
    case (Inf u)
    then show ?thesis by simp
  next
    case NaN
    then show ?thesis using r by (simp add: rounds_to_def)
  qed
  then obtain u where "p = Inf u" ..
  then show ?thesis
    by (simp add: celsiusToFahrenheit_def go_mul_add_def const_32 p_def [symmetric])
qed

text \<open>The constant 1.8 of the program is the number 1.8, rounded.\<close>

lemma const_18_10_rounds_to: "rounds_to (18 / 10) (f64_const 18 10)"
  by (simp add: const_18_10 rounds_to_def is_finite64_def valof_def signed_def
      power_int_minus_divide)

text \<open>
  Claim C2. For every finite \<^verbatim>\<open>float64\<close> value \<open>c\<close>, negative ones included:
  \<^verbatim>\<open>celsiusToKelvin(c)\<close> is the real number \<open>c + 273\<close> rounded to \<^verbatim>\<open>float64\<close>, and
  is always finite; \<^verbatim>\<open>celsiusToFahrenheit(c)\<close> is \<open>c \<times> k + 32\<close> rounded once when the
  compiler fuses the two operations, and otherwise the rounded sum of the rounded product
  \<open>c \<times> k\<close> and 32, or the infinity that the product overflowed to; \<open>k\<close> is the
  \<^verbatim>\<open>float64\<close> constant of the program, the number 1.8 rounded, and 32 and 273 are exact.
  The offset is 273, which is not 273.15. A number other than zero has one rounding
  (\<open>rounds_to_unique\<close>), so this fixes every result. In particular the comparisons
  \<^verbatim>\<open>celsiusToFahrenheit(c) == c*1.8+32\<close> and \<^verbatim>\<open>celsiusToKelvin(c) == c+273\<close> of
  Go hold, whichever way the compiler evaluates the product and the sum.
\<close>

theorem conversion_formulas:
  assumes "is_finite64 c"
  shows "rounds_to (valof c + 273) (celsiusToKelvin c)
         \<and> is_finite64 (celsiusToKelvin c)
         \<and> rounds_to (valof c * valof (f64_const 18 10) + 32) (celsiusToFahrenheit True c)
         \<and> rounds_to (valof c * valof (f64_const 18 10)) (f64_mul c (f64_const 18 10))
         \<and> (if is_finite64 (f64_mul c (f64_const 18 10))
             then rounds_to (valof (f64_mul c (f64_const 18 10)) + 32)
                    (celsiusToFahrenheit False c)
                  \<and> is_finite64 (celsiusToFahrenheit False c)
             else celsiusToFahrenheit False c = f64_mul c (f64_const 18 10))
         \<and> rounds_to (18 / 10) (f64_const 18 10)
         \<and> valof (f64_const 32 1) = 32
         \<and> valof (f64_const 273 1) = 273
         \<and> \<not> f64_eq (f64_const 273 1) (f64_const 27315 100)
         \<and> f64_eq (celsiusToFahrenheit fused c)
             (go_mul_add fused c (f64_const 18 10) (f64_const 32 1))
         \<and> f64_eq (celsiusToKelvin c) (f64_add c (f64_const 273 1))"
proof -
  obtain s m e where c: "c = Finite s m e"
    using assms by (rule is_finite64_cases)
  have fahrenheit: "f64_eq (celsiusToFahrenheit fused c)
      (go_mul_add fused c (f64_const 18 10) (f64_const 32 1))"
    using celsiusToFahrenheit_not_NaN [of fused s m e] f64_eq_refl
    by (simp add: c celsiusToFahrenheit_def)
  have kelvin: "f64_eq (celsiusToKelvin c) (f64_add c (f64_const 273 1))"
    using celsiusToKelvin_not_NaN [of s m e] f64_eq_refl
    by (simp add: c celsiusToKelvin_def)
  have offset: "\<not> f64_eq (f64_const 273 1) (f64_const 27315 100)"
    by code_simp
  have twice: "if is_finite64 (f64_mul c (f64_const 18 10))
      then rounds_to (valof (f64_mul c (f64_const 18 10)) + 32) (celsiusToFahrenheit False c)
           \<and> is_finite64 (celsiusToFahrenheit False c)
      else celsiusToFahrenheit False c = f64_mul c (f64_const 18 10)"
  proof (cases "is_finite64 (f64_mul c (f64_const 18 10))")
    case True
    then show ?thesis
      using celsiusToFahrenheit_sum_rounds_to [OF True] by (simp only: if_True simp_thms)
  next
    case False
    then show ?thesis
      using celsiusToFahrenheit_product_overflow [OF assms False] by (simp only: if_False)
  qed
  show ?thesis
    using celsiusToKelvin_rounds_to [OF assms] celsiusToFahrenheit_fused_rounds_to [OF assms]
      celsiusToFahrenheit_product_rounds_to [OF assms] twice const_18_10_rounds_to
      valof_32 valof_273 offset fahrenheit kelvin
    by (simp only: simp_thms)
qed

theorem conversion_formulas_witness:
  "is_finite64 (Finite True 5629499534213120 (- 47))
   \<and> valof (Finite True 5629499534213120 (- 47)) = - 40
   \<and> celsiusToKelvin (Finite True 5629499534213120 (- 47)) = f64_const 233 1
   \<and> rounds_to (- 40 + 273) (f64_const 233 1)
   \<and> celsiusToFahrenheit True (Finite True 5629499534213120 (- 47))
       = Finite True 5629499534213120 (- 47)
   \<and> celsiusToFahrenheit False (Finite True 5629499534213120 (- 47))
       = Finite True 5629499534213120 (- 47)
   \<and> rounds_to (- 40 * valof (f64_const 18 10) + 32) (Finite True 5629499534213120 (- 47))
   \<and> is_finite64 (f64_const 285 10)
   \<and> is_finite64 (f64_mul (f64_const 285 10) (f64_const 18 10))
   \<and> celsiusToFahrenheit False (f64_const 285 10) = Finite False 5861716389999412 (- 46)
   \<and> rounds_to (valof (f64_mul (f64_const 285 10) (f64_const 18 10)) + 32)
       (Finite False 5861716389999412 (- 46))
   \<and> celsiusToFahrenheit True (f64_const 285 10) = Finite False 5861716389999411 (- 46)
   \<and> rounds_to (valof (f64_const 285 10) * valof (f64_const 18 10) + 32)
       (Finite False 5861716389999411 (- 46))
   \<and> is_finite64 (Finite False 9007199254740991 971)
   \<and> \<not> is_finite64 (f64_mul (Finite False 9007199254740991 971) (f64_const 18 10))
   \<and> celsiusToFahrenheit False (Finite False 9007199254740991 971) = Inf False
   \<and> rounds_to (valof (Finite False 9007199254740991 971) * valof (f64_const 18 10))
       (Inf False)
   \<and> is_finite64 (celsiusToKelvin (Finite False 9007199254740991 971))"
proof -
  have finite1: "is_finite64 (Finite True 5629499534213120 (- 47))"
    by (simp add: is_finite64_def)
  have v1: "valof (Finite True 5629499534213120 (- 47)) = - 40"
    by (simp add: valof_def signed_def power_int_minus_divide)
  have kelvin1: "celsiusToKelvin (Finite True 5629499534213120 (- 47)) = f64_const 233 1"
    by code_simp
  have fused1: "celsiusToFahrenheit True (Finite True 5629499534213120 (- 47))
      = Finite True 5629499534213120 (- 47)"
    by code_simp
  have twice1: "celsiusToFahrenheit False (Finite True 5629499534213120 (- 47))
      = Finite True 5629499534213120 (- 47)"
    by code_simp
  note t1 = conversion_formulas [OF finite1, of True]
  have r1: "rounds_to (- 40 + 273) (f64_const 233 1)"
    "rounds_to (- 40 * valof (f64_const 18 10) + 32) (Finite True 5629499534213120 (- 47))"
    using t1 by (simp_all only: v1 kelvin1 fused1)
  have finite2: "is_finite64 (f64_const 285 10)"
    by code_simp
  have product2: "is_finite64 (f64_mul (f64_const 285 10) (f64_const 18 10))"
    by code_simp
  have twice2: "celsiusToFahrenheit False (f64_const 285 10)
      = Finite False 5861716389999412 (- 46)"
    by code_simp
  have fused2: "celsiusToFahrenheit True (f64_const 285 10)
      = Finite False 5861716389999411 (- 46)"
    by code_simp
  note t2 = conversion_formulas [OF finite2, of False]
  have r2: "rounds_to (valof (f64_mul (f64_const 285 10) (f64_const 18 10)) + 32)
      (Finite False 5861716389999412 (- 46))"
    "rounds_to (valof (f64_const 285 10) * valof (f64_const 18 10) + 32)
      (Finite False 5861716389999411 (- 46))"
    using t2 product2 by (simp_all only: twice2 fused2 if_True)
  have finite3: "is_finite64 (Finite False 9007199254740991 971)"
    by (simp add: is_finite64_def)
  have product3: "f64_mul (Finite False 9007199254740991 971) (f64_const 18 10) = Inf False"
    by code_simp
  have overflow3: "\<not> is_finite64 (f64_mul (Finite False 9007199254740991 971) (f64_const 18 10))"
    by (simp add: product3 is_finite64_def)
  note t3 = conversion_formulas [OF finite3, of False]
  have r3: "celsiusToFahrenheit False (Finite False 9007199254740991 971) = Inf False"
    "rounds_to (valof (Finite False 9007199254740991 971) * valof (f64_const 18 10)) (Inf False)"
    "is_finite64 (celsiusToKelvin (Finite False 9007199254740991 971))"
    using t3 overflow3 by (simp_all only: product3 if_False)
  show ?thesis
    using finite1 v1 kelvin1 fused1 twice1 r1 finite2 product2 twice2 fused2 r2
      finite3 overflow3 r3
    by (simp only: simp_thms)
qed

section \<open>Properties of the handlers\<close>

lemma http_calls_append: "http_calls (xs @ ys) = http_calls xs @ http_calls ys"
  by (induction xs rule: http_calls.induct) simp_all

lemma fst_traced: "fst (traced name r) = SpanStart name # fst r @ [SpanEnd name]"
  by (simp add: traced_def)

lemma snd_traced: "snd (traced name r) = snd r"
  by (simp add: traced_def)

lemma http_calls_traced: "http_calls (fst (traced name r)) = http_calls (fst r)"
  by (simp add: fst_traced http_calls_append)

text \<open>
  Claim C7. In both services a request whose body does not decode, or whose postal code
  fails the validation, is answered with 422 and the message "invalid zipcode", and no
  request has been handed to the HTTP client.
\<close>

theorem invalid_request_422:
  assumes "(\<exists>err. ShouldBindJSON w body = Inl err)
           \<or> (\<exists>req. ShouldBindJSON w body = Inr req \<and> \<not> validateCEP (CEP req))"
  shows "status_code (snd (cep_handler w body)) = 422
         \<and> response_body (snd (cep_handler w body))
             = Document (JObject [(''message'', JString ''invalid zipcode'')])
         \<and> http_calls (fst (cep_handler w body)) = []
         \<and> status_code (snd (weather_handler w body)) = 422
         \<and> response_body (snd (weather_handler w body))
             = Document (JObject [(''message'', JString ''invalid zipcode'')])
         \<and> http_calls (fst (weather_handler w body)) = []"
  using assms
  by (auto simp: cep_handler_def weather_handler_def snd_traced http_calls_traced)

theorem invalid_request_422_witness:
  \<open>status_code (snd (cep_handler example_world ''{"cep":"123"}'')) = 422
   \<and> http_calls (fst (cep_handler example_world ''{"cep":"123"}'')) = []
   \<and> response_body (snd (weather_handler example_world ''{"cep":"123"}''))
       = Document (JObject [(''message'', JString ''invalid zipcode'')])
   \<and> status_code (snd (weather_handler example_world ''{"cep":'')) = 422
   \<and> http_calls (fst (weather_handler example_world ''{"cep":'')) = []\<close>
proof -
  have short: \<open>ShouldBindJSON example_world ''{"cep":"123"}'' = Inr \<lparr>CEP = ''123''\<rparr>\<close>
    by (simp add: example_world_def lookup_def example_request_bodies_def)
  have bad: \<open>ShouldBindJSON example_world ''{"cep":'' = Inl ''unexpected end of JSON input''\<close>
    by (simp add: example_world_def lookup_def example_request_bodies_def)
  have invalid: "\<not> validateCEP ''123''"
    by code_simp
  show ?thesis
    using invalid_request_422 [of example_world \<open>''{"cep":"123"}''\<close>]
      invalid_request_422 [of example_world \<open>''{"cep":''\<close>] short bad invalid
    by simp
qed

lemma snd_call_service_b:
  assumes "NewRequestError w ''POST'' ''http://service-b:8081/weather'' = None"
    and "ClientDo w (service_b_request req) = Inr resp"
    and "Body resp = Inr data"
  shows "snd (call_service_b w req) = Data (StatusCode resp) ''application/json'' data"
  using assms by (simp add: call_service_b_def snd_traced service_b_request_def)

lemma snd_cep_handler_valid:
  assumes "ShouldBindJSON w body = Inr req" and "validateCEP (CEP req)"
  shows "snd (cep_handler w body) = snd (call_service_b w req)"
  using assms by (simp add: cep_handler_def snd_traced Let_def)

text \<open>
  Claim C6. When the Resolver Service answers the Gateway's request, the Gateway's response
  has the status code of that answer and, as its body, the bytes read from it, whatever they
  are.
\<close>

theorem gateway_passthrough:
  assumes "ShouldBindJSON w body = Inr req" and "validateCEP (CEP req)"
    and "NewRequestError w ''POST'' ''http://service-b:8081/weather'' = None"
    and "ClientDo w (service_b_request req) = Inr resp"
    and "Body resp = Inr data"
  shows "status_code (snd (cep_handler w body)) = StatusCode resp
         \<and> response_body (snd (cep_handler w body)) = Bytes data"
  using assms by (simp add: snd_cep_handler_valid snd_call_service_b)

theorem gateway_passthrough_witness:
  \<open>status_code (snd (cep_handler example_world ''{"cep":"00000000"}'')) = 404
   \<and> response_body (snd (cep_handler example_world ''{"cep":"00000000"}''))
       = Bytes ''{"message":"can not find zipcode"}''\<close>
proof -
  have bind: \<open>ShouldBindJSON example_world ''{"cep":"00000000"}'' = Inr \<lparr>CEP = ''00000000''\<rparr>\<close>
    by (simp add: example_world_def lookup_def example_request_bodies_def)
  have valid: "validateCEP (CEP \<lparr>CEP = ''00000000''\<rparr>)"
    by code_simp
  have new: "NewRequestError example_world ''POST'' ''http://service-b:8081/weather'' = None"
    by (simp add: example_world_def)
  have do: \<open>ClientDo example_world (service_b_request \<lparr>CEP = ''00000000''\<rparr>)
      = Inr (example_answer 404 ''{"message":"can not find zipcode"}'')\<close>
    by (simp add: example_world_def lookup_def example_network_def service_b_request_def
        Marshal_CEPRequest_def viacep_url_def weather_url_def Sao_Paulo_def)
  have read: \<open>Body (example_answer 404 ''{"message":"can not find zipcode"}'')
      = Inr ''{"message":"can not find zipcode"}''\<close>
    by (simp add: example_answer_def)
  show ?thesis
    using gateway_passthrough [OF bind valid new do read]
    by (simp add: example_answer_def)
qed

text \<open>
  Claim C10. On the same path the content type of the Gateway's response is
  "application/json" whatever headers the Resolver's answer carried: the response is made of
  the status code and the bytes of the answer, and of nothing else of it.
\<close>

theorem gateway_content_type:
  assumes "ShouldBindJSON w body = Inr req" and "validateCEP (CEP req)"
    and "NewRequestError w ''POST'' ''http://service-b:8081/weather'' = None"
    and "ClientDo w (service_b_request req) = Inr resp"
    and "Body resp = Inr data"
  shows "content_type (snd (cep_handler w body)) = ''application/json''
         \<and> snd (cep_handler w body) = Data (StatusCode resp) ''application/json'' data"
  using assms by (simp add: snd_cep_handler_valid snd_call_service_b)

theorem gateway_content_type_witness:
  \<open>Header (example_answer 404 ''{"message":"can not find zipcode"}'')
     = [(''Content-Type'', ''text/plain'')]
   \<and> content_type (snd (cep_handler example_world ''{"cep":"00000000"}'')) = ''application/json''\<close>
proof -
  have bind: \<open>ShouldBindJSON example_world ''{"cep":"00000000"}'' = Inr \<lparr>CEP = ''00000000''\<rparr>\<close>
    by (simp add: example_world_def lookup_def example_request_bodies_def)
  have valid: "validateCEP (CEP \<lparr>CEP = ''00000000''\<rparr>)"
    by code_simp
  have new: "NewRequestError example_world ''POST'' ''http://service-b:8081/weather'' = None"
    by (simp add: example_world_def)
  have do: \<open>ClientDo example_world (service_b_request \<lparr>CEP = ''00000000''\<rparr>)
      = Inr (example_answer 404 ''{"message":"can not find zipcode"}'')\<close>
    by (simp add: example_world_def lookup_def example_network_def service_b_request_def
        Marshal_CEPRequest_def viacep_url_def weather_url_def Sao_Paulo_def)
  have read: \<open>Body (example_answer 404 ''{"message":"can not find zipcode"}'')
      = Inr ''{"message":"can not find zipcode"}''\<close>
    by (simp add: example_answer_def)
  show ?thesis
    using gateway_content_type [OF bind valid new do read]
    by (simp add: example_answer_def)
qed

subsection \<open>The city lookup\<close>

lemma getCityFromCEP_not_found:
  assumes "NewRequestError w ''GET'' (viacep_url cep) = None"
    and "ClientDo w (get_request (viacep_url cep)) = Inr resp"
    and "Body resp = Inr data"
    and "UnmarshalViaCEP w data = Inr v"
    and "Erro v"
  shows "snd (getCityFromCEP w cep) = Inl ''CEP not found''"
  using assms by (simp add: getCityFromCEP_def snd_traced)

lemma getCityFromCEP_library_error:
  assumes "NewRequestError w ''GET'' (viacep_url cep) = Some err
     \<or> NewRequestError w ''GET'' (viacep_url cep) = None
       \<and> (ClientDo w (get_request (viacep_url cep)) = Inl err
          \<or> (\<exists>resp. ClientDo w (get_request (viacep_url cep)) = Inr resp
                \<and> (Body resp = Inl err
                   \<or> (\<exists>data. Body resp = Inr data \<and> UnmarshalViaCEP w data = Inl err))))"
  shows "snd (getCityFromCEP w cep) = Inl err
         \<and> RecordError ''viacep-lookup'' err \<in> set (fst (getCityFromCEP w cep))"
  using assms by (auto simp: getCityFromCEP_def snd_traced fst_traced)

lemma weather_handler_city_error:
  assumes "ShouldBindJSON w body = Inr req" and "validateCEP (CEP req)"
    and "snd (getCityFromCEP w (CEP req)) = Inl err"
  shows "snd (weather_handler w body) =
           (if err = ''CEP not found''
            then JSON 404 (ErrorPayload \<lparr>Message = ''can not find zipcode''\<rparr>)
            else JSON 500 (ErrorPayload \<lparr>Message = ''internal server error''\<rparr>))"
    and "err \<noteq> ''CEP not found''
         \<Longrightarrow> RecordError ''weather-endpoint'' err \<in> set (fst (weather_handler w body))"
    and "set (fst (getCityFromCEP w (CEP req))) \<subseteq> set (fst (weather_handler w body))"
  using assms
  by (auto simp: weather_handler_def snd_traced fst_traced Let_def split: prod.splits if_splits)

text \<open>
  Claim C3. For a validated request, when the Postal Lookup Provider's payload decodes with
  its not-found flag set, the response is 404 "can not find zipcode". When the lookup stops
  at an error of a library call (building the request, the transport, reading the body,
  decoding the payload), the response is 500 "internal server error" and the error is
  recorded on the span of the lookup and on the span of the handler. The handler tells the
  two apart by the text of the error, so the second part is for library errors whose text
  is not "CEP not found".
\<close>

theorem city_lookup_failure:
  assumes "ShouldBindJSON w body = Inr req" and "validateCEP (CEP req)"
  shows "(NewRequestError w ''GET'' (viacep_url (CEP req)) = None
          \<and> ClientDo w (get_request (viacep_url (CEP req))) = Inr resp
          \<and> Body resp = Inr data \<and> UnmarshalViaCEP w data = Inr v \<and> Erro v
          \<longrightarrow> status_code (snd (weather_handler w body)) = 404
              \<and> response_body (snd (weather_handler w body))
                  = Document (JObject [(''message'', JString ''can not find zipcode'')]))
       \<and> ((NewRequestError w ''GET'' (viacep_url (CEP req)) = Some err
            \<or> NewRequestError w ''GET'' (viacep_url (CEP req)) = None
              \<and> (ClientDo w (get_request (viacep_url (CEP req))) = Inl err
                 \<or> (\<exists>resp. ClientDo w (get_request (viacep_url (CEP req))) = Inr resp
                       \<and> (Body resp = Inl err
                          \<or> (\<exists>data. Body resp = Inr data
                                \<and> UnmarshalViaCEP w data = Inl err)))))
           \<and> err \<noteq> ''CEP not found''
          \<longrightarrow> status_code (snd (weather_handler w body)) = 500
              \<and> response_body (snd (weather_handler w body))
                  = Document (JObject [(''message'', JString ''internal server error'')])
              \<and> RecordError ''viacep-lookup'' err \<in> set (fst (weather_handler w body))
              \<and> RecordError ''weather-endpoint'' err \<in> set (fst (weather_handler w body)))"
proof (intro conjI impI)
  assume flag: "NewRequestError w ''GET'' (viacep_url (CEP req)) = None
          \<and> ClientDo w (get_request (viacep_url (CEP req))) = Inr resp
          \<and> Body resp = Inr data \<and> UnmarshalViaCEP w data = Inr v \<and> Erro v"
  then have "snd (getCityFromCEP w (CEP req)) = Inl ''CEP not found''"
    by (simp add: getCityFromCEP_not_found)
  then have r: "snd (weather_handler w body)
      = JSON 404 (ErrorPayload \<lparr>Message = ''can not find zipcode''\<rparr>)"
    using weather_handler_city_error(1) [OF assms] by simp
  show "status_code (snd (weather_handler w body)) = 404"
    by (simp add: r)
  show "response_body (snd (weather_handler w body))
      = Document (JObject [(''message'', JString ''can not find zipcode'')])"
    by (simp add: r)
next
  assume other: "(NewRequestError w ''GET'' (viacep_url (CEP req)) = Some err
            \<or> NewRequestError w ''GET'' (viacep_url (CEP req)) = None
              \<and> (ClientDo w (get_request (viacep_url (CEP req))) = Inl err
                 \<or> (\<exists>resp. ClientDo w (get_request (viacep_url (CEP req))) = Inr resp
                       \<and> (Body resp = Inl err
                          \<or> (\<exists>data. Body resp = Inr data
                                \<and> UnmarshalViaCEP w data = Inl err)))))
           \<and> err \<noteq> ''CEP not found''"
  then have lib: "snd (getCityFromCEP w (CEP req)) = Inl err"
    and rec: "RecordError ''viacep-lookup'' err \<in> set (fst (getCityFromCEP w (CEP req)))"
    and differs: "err \<noteq> ''CEP not found''"
    using getCityFromCEP_library_error [of w "CEP req" err] by blast+
  have r: "snd (weather_handler w body)
      = JSON 500 (ErrorPayload \<lparr>Message = ''internal server error''\<rparr>)"
    using weather_handler_city_error(1) [OF assms lib] differs by simp
  show "status_code (snd (weather_handler w body)) = 500"
    by (simp add: r)
  show "response_body (snd (weather_handler w body))
      = Document (JObject [(''message'', JString ''internal server error'')])"
    by (simp add: r)
  show "RecordError ''viacep-lookup'' err \<in> set (fst (weather_handler w body))"
    using weather_handler_city_error(3) [OF assms lib] rec by blast
  show "RecordError ''weather-endpoint'' err \<in> set (fst (weather_handler w body))"
    using weather_handler_city_error(2) [OF assms lib differs] .
qed

theorem city_lookup_failure_witness:
  \<open>status_code (snd (weather_handler example_world ''{"cep":"00000000"}'')) = 404
   \<and> response_body (snd (weather_handler example_world ''{"cep":"00000000"}''))
       = Document (JObject [(''message'', JString ''can not find zipcode'')])
   \<and> status_code (snd (weather_handler example_world ''{"cep":"11111111"}'')) = 500
   \<and> response_body (snd (weather_handler example_world ''{"cep":"11111111"}''))
       = Document (JObject [(''message'', JString ''internal server error'')])
   \<and> RecordError ''weather-endpoint'' ''dial tcp: connection refused''
       \<in> set (fst (weather_handler example_world ''{"cep":"11111111"}''))\<close>
proof -
  have bind0: \<open>ShouldBindJSON example_world ''{"cep":"00000000"}'' = Inr \<lparr>CEP = ''00000000''\<rparr>\<close>
    and bind1: \<open>ShouldBindJSON example_world ''{"cep":"11111111"}'' = Inr \<lparr>CEP = ''11111111''\<rparr>\<close>
    by code_simp+
  have valid0: "validateCEP (CEP \<lparr>CEP = ''00000000''\<rparr>)"
    and valid1: "validateCEP (CEP \<lparr>CEP = ''11111111''\<rparr>)"
    by code_simp+
  have flag: \<open>NewRequestError example_world ''GET'' (viacep_url (CEP \<lparr>CEP = ''00000000''\<rparr>)) = None
      \<and> ClientDo example_world (get_request (viacep_url (CEP \<lparr>CEP = ''00000000''\<rparr>)))
          = Inr (example_answer 200 ''{"erro":true}'')
      \<and> Body (example_answer 200 ''{"erro":true}'') = Inr ''{"erro":true}''
      \<and> UnmarshalViaCEP example_world ''{"erro":true}'' = Inr (example_address '''' True)
      \<and> Erro (example_address '''' True)\<close>
    by code_simp
  have refused: \<open>NewRequestError example_world ''GET'' (viacep_url (CEP \<lparr>CEP = ''11111111''\<rparr>)) = None
      \<and> ClientDo example_world (get_request (viacep_url (CEP \<lparr>CEP = ''11111111''\<rparr>)))
          = Inl ''dial tcp: connection refused''
      \<and> ''dial tcp: connection refused'' \<noteq> ''CEP not found''\<close>
    by code_simp
  show ?thesis
    using city_lookup_failure [OF bind0 valid0,
        where resp = \<open>example_answer 200 ''{"erro":true}''\<close> and data = \<open>''{"erro":true}''\<close>
          and v = "example_address '''' True"]
      city_lookup_failure [OF bind1 valid1, where err = "''dial tcp: connection refused''"]
      flag refused
    by blast
qed

subsection \<open>The weather lookup\<close>

lemma weather_handler_weather_error:
  assumes "ShouldBindJSON w body = Inr req" and "validateCEP (CEP req)"
    and "snd (getCityFromCEP w (CEP req)) = Inr city"
    and "snd (getWeather w city) = Inl err"
  shows "snd (weather_handler w body) =
           (if err = ''city not found''
            then JSON 404 (ErrorPayload \<lparr>Message = ''can not find zipcode''\<rparr>)
            else JSON 500 (ErrorPayload \<lparr>Message = ''internal server error''\<rparr>))"
    and "err \<noteq> ''city not found''
         \<Longrightarrow> RecordError ''weather-endpoint'' err \<in> set (fst (weather_handler w body))"
    and "http_calls (fst (weather_handler w body))
           = http_calls (fst (getCityFromCEP w (CEP req))) @ http_calls (fst (getWeather w city))"
  using assms
  by (auto simp: weather_handler_def snd_traced fst_traced Let_def http_calls_append
      split: prod.splits if_splits)

lemma getWeather_answered:
  assumes "Getenv w ''WEATHERAPI_KEY'' = apiKey" and "apiKey \<noteq> ''''"
    and "NewRequestError w ''GET'' (weather_url apiKey city) = None"
    and "ClientDo w (get_request (weather_url apiKey city)) = Inr resp"
    and "StatusCode resp \<noteq> 401" and "StatusCode resp \<noteq> 403"
    and "Body resp = Inr data"
  shows "snd (getWeather w city) =
           (case UnmarshalWeather w data of
              Inl err \<Rightarrow> Inl err
            | Inr d \<Rightarrow>
              (case Error d of
                 None \<Rightarrow> Inr (Current_TempC d)
               | Some e \<Rightarrow>
                   if Code e = 1006 then Inl ''city not found''
                   else Inl (''weatherapi error '' @ Itoa (Code e) @ '': '' @ Msg e)))"
  using assms
  by (simp add: getWeather_def snd_traced Let_def split: sum.splits option.splits)





lemma getWeather_without_key:
  assumes "Getenv w ''WEATHERAPI_KEY'' = ''''"
  shows "getWeather w city =
           ([SpanStart ''weather-lookup'',
             SetAttributes ''weather-lookup'' [AttrString ''city'' city],
             RecordError ''weather-lookup'' ''WEATHERAPI_KEY not set'',
             SpanEnd ''weather-lookup''],
            Inl ''WEATHERAPI_KEY not set'')"
  using assms by (simp add: getWeather_def traced_def)

text \<open>
  Claim C5, as the code has it. The claim as stated fails for a valid postal code that the
  Postal Lookup Provider reports as not found: the city lookup runs first, the weather
  lookup is not reached and the response is 404.
\<close>

theorem credential_absent_counterexample:
  \<open>Getenv example_world_without_key ''WEATHERAPI_KEY'' = ''''
   \<and> ShouldBindJSON example_world_without_key ''{"cep":"00000000"}''
       = Inr \<lparr>CEP = ''00000000''\<rparr>
   \<and> validateCEP ''00000000''
   \<and> status_code (snd (weather_handler example_world_without_key ''{"cep":"00000000"}'')) = 404
   \<and> status_code (snd (weather_handler example_world_without_key ''{"cep":"00000000"}'')) \<noteq> 500
   \<and> SpanStart ''weather-lookup''
       \<notin> set (fst (weather_handler example_world_without_key ''{"cep":"00000000"}''))\<close>
  by code_simp

text \<open>
  Claim C5, amended. For a valid request whose city lookup succeeds, if the credential of
  the weather provider is absent from the environment, the weather lookup fails at once
  with the error "WEATHERAPI_KEY not set": it hands no request to the HTTP client and
  records the error on its span. The handler records the error on its own span and answers
  500 "internal server error"; the only requests of the whole run are those of the city
  lookup.
\<close>

theorem credential_absent:
  assumes "ShouldBindJSON w body = Inr req" and "validateCEP (CEP req)"
    and "snd (getCityFromCEP w (CEP req)) = Inr city"
    and "Getenv w ''WEATHERAPI_KEY'' = ''''"
  shows "snd (getWeather w city) = Inl ''WEATHERAPI_KEY not set''
         \<and> http_calls (fst (getWeather w city)) = []
         \<and> RecordError ''weather-lookup'' ''WEATHERAPI_KEY not set''
             \<in> set (fst (getWeather w city))
         \<and> status_code (snd (weather_handler w body)) = 500
         \<and> response_body (snd (weather_handler w body))
             = Document (JObject [(''message'', JString ''internal server error'')])
         \<and> RecordError ''weather-endpoint'' ''WEATHERAPI_KEY not set''
             \<in> set (fst (weather_handler w body))
         \<and> http_calls (fst (weather_handler w body))
             = http_calls (fst (getCityFromCEP w (CEP req)))"
proof -
  have lookup: "snd (getWeather w city) = Inl ''WEATHERAPI_KEY not set''"
    by (simp add: getWeather_without_key [OF assms(4)])
  have calls: "http_calls (fst (getWeather w city)) = []"
    by (simp add: getWeather_without_key [OF assms(4)])
  have recorded: "RecordError ''weather-lookup'' ''WEATHERAPI_KEY not set''
      \<in> set (fst (getWeather w city))"
    by (simp add: getWeather_without_key [OF assms(4)])
  have differs: "''WEATHERAPI_KEY not set'' \<noteq> ''city not found''"
    by simp
  have r: "snd (weather_handler w body)
      = JSON 500 (ErrorPayload \<lparr>Message = ''internal server error''\<rparr>)"
    using weather_handler_weather_error(1) [OF assms(1-3) lookup] by simp
  show ?thesis
    using lookup calls recorded r
      weather_handler_weather_error(2) [OF assms(1-3) lookup differs]
      weather_handler_weather_error(3) [OF assms(1-3) lookup]
    by simp
qed

theorem credential_absent_witness:
  \<open>snd (getWeather example_world_without_key Sao_Paulo) = Inl ''WEATHERAPI_KEY not set''
   \<and> status_code (snd (weather_handler example_world_without_key ''{"cep":"29902555"}'')) = 500
   \<and> response_body (snd (weather_handler example_world_without_key ''{"cep":"29902555"}''))
       = Document (JObject [(''message'', JString ''internal server error'')])
   \<and> RecordError ''weather-endpoint'' ''WEATHERAPI_KEY not set''
       \<in> set (fst (weather_handler example_world_without_key ''{"cep":"29902555"}''))
   \<and> http_calls (fst (weather_handler example_world_without_key ''{"cep":"29902555"}''))
       = [get_request (viacep_url ''29902555'')]\<close>
proof -
  have bind: \<open>ShouldBindJSON example_world_without_key ''{"cep":"29902555"}''
      = Inr \<lparr>CEP = ''29902555''\<rparr>\<close>
    by code_simp
  have valid: "validateCEP (CEP \<lparr>CEP = ''29902555''\<rparr>)"
    by code_simp
  have city: "snd (getCityFromCEP example_world_without_key (CEP \<lparr>CEP = ''29902555''\<rparr>))
      = Inr Sao_Paulo"
    by code_simp
  have key: "Getenv example_world_without_key ''WEATHERAPI_KEY'' = ''''"
    by code_simp
  have calls: "http_calls (fst (getCityFromCEP example_world_without_key
      (CEP \<lparr>CEP = ''29902555''\<rparr>))) = [get_request (viacep_url ''29902555'')]"
    by code_simp
  show ?thesis
    using credential_absent [OF bind valid city key] calls by simp
qed

text \<open>
  Claim C9. In the weather lookup, once the provider has answered with a status other than
  401 and 403 and the body has been read, the status plays no part: the result is the
  Celsius value when the payload decodes and embeds no error object, the decoder's error
  when it does not decode, and an error when it embeds an error object.
\<close>

theorem weather_status_not_a_failure:
  assumes "Getenv w ''WEATHERAPI_KEY'' = apiKey" and "apiKey \<noteq> ''''"
    and "NewRequestError w ''GET'' (weather_url apiKey city) = None"
    and "ClientDo w (get_request (weather_url apiKey city)) = Inr resp"
    and "StatusCode resp \<noteq> 401" and "StatusCode resp \<noteq> 403"
    and "Body resp = Inr data"
  shows "(\<forall>d. UnmarshalWeather w data = Inr d \<and> Error d = None
            \<longrightarrow> snd (getWeather w city) = Inr (Current_TempC d))
       \<and> (\<forall>err. UnmarshalWeather w data = Inl err \<longrightarrow> snd (getWeather w city) = Inl err)
       \<and> (\<forall>d e. UnmarshalWeather w data = Inr d \<and> Error d = Some e
            \<longrightarrow> (\<exists>err. snd (getWeather w city) = Inl err))
       \<and> (\<forall>err. snd (getWeather w city) = Inl err
            \<longrightarrow> UnmarshalWeather w data = Inl err
                \<or> (\<exists>d e. UnmarshalWeather w data = Inr d \<and> Error d = Some e))"
  using getWeather_answered [OF assms]
  by (auto split: sum.splits option.splits if_splits)

theorem weather_status_not_a_failure_witness:
  \<open>StatusCode (example_answer 500 ''{"current":{"temp_c":20}}'') = 500
   \<and> ClientDo example_world (get_request (weather_url ''secret'' ''Campinas''))
       = Inr (example_answer 500 ''{"current":{"temp_c":20}}'')
   \<and> snd (getWeather example_world ''Campinas'') = Inr (f64_const 20 1)\<close>
proof -
  have key: "Getenv example_world ''WEATHERAPI_KEY'' = ''secret''"
    and nonempty: "''secret'' \<noteq> ''''"
    by code_simp+
  have new: "NewRequestError example_world ''GET'' (weather_url ''secret'' ''Campinas'') = None"
    by code_simp
  have do: \<open>ClientDo example_world (get_request (weather_url ''secret'' ''Campinas''))
      = Inr (example_answer 500 ''{"current":{"temp_c":20}}'')\<close>
    by code_simp
  have status: \<open>StatusCode (example_answer 500 ''{"current":{"temp_c":20}}'') \<noteq> 401\<close>
    \<open>StatusCode (example_answer 500 ''{"current":{"temp_c":20}}'') \<noteq> 403\<close>
    by (simp_all add: example_answer_def)
  have read: \<open>Body (example_answer 500 ''{"current":{"temp_c":20}}'')
      = Inr ''{"current":{"temp_c":20}}''\<close>
    by (simp add: example_answer_def)
  have dec: \<open>UnmarshalWeather example_world ''{"current":{"temp_c":20}}''
      = Inr \<lparr>Current_TempC = f64_const 20 1, Error = None\<rparr>\<close>
    by code_simp
  show ?thesis
    using weather_status_not_a_failure [OF key nonempty new do status read] dec do
    by (simp add: example_answer_def)
qed

section \<open>The documented example\<close>

lemma weather_handler_success:
  assumes "ShouldBindJSON w body = Inr req" and "validateCEP (CEP req)"
    and "snd (getCityFromCEP w (CEP req)) = Inr city"
    and "snd (getWeather w city) = Inr tempC"
  shows "snd (weather_handler w body) =
           JSON 200 (WeatherPayload
             \<lparr>City = city, TempC = tempC,
              TempF = celsiusToFahrenheit (FusedMultiplyAdd w) tempC,
              TempK = celsiusToKelvin tempC\<rparr>)"
  using assms
  by (auto simp: weather_handler_def snd_traced Let_def split: prod.splits)

lemma fahrenheit_28_5_rounded_twice:
  "celsiusToFahrenheit False (f64_const 285 10) = f64_const 8330000000000001 100000000000000"
  by code_simp

lemma fahrenheit_28_5_fused:
  "celsiusToFahrenheit True (f64_const 285 10) = f64_const 833 10"
  by code_simp

lemma kelvin_28_5: "celsiusToKelvin (f64_const 285 10) = f64_const 3015 10"
  by code_simp

text \<open>
  Claim C8, as the code has it. With the product and the sum rounded one after the other,
  as the compiler does on amd64 by default, 28.5 degrees Celsius are not 83.3 degrees
  Fahrenheit but the next \<^verbatim>\<open>float64\<close>, written 83.30000000000001.
\<close>

theorem documented_example_counterexample:
  \<open>FusedMultiplyAdd example_world = False
   \<and> ShouldBindJSON example_world ''{"cep":"29902555"}'' = Inr \<lparr>CEP = ''29902555''\<rparr>
   \<and> snd (getCityFromCEP example_world ''29902555'') = Inr Sao_Paulo
   \<and> snd (getWeather example_world Sao_Paulo) = Inr (f64_const 285 10)
   \<and> response_body (snd (weather_handler example_world ''{"cep":"29902555"}''))
       \<noteq> Document (JObject
            [(''city'', JString Sao_Paulo), (''temp_C'', JNumber (f64_const 285 10)),
             (''temp_F'', JNumber (f64_const 833 10)),
             (''temp_K'', JNumber (f64_const 3015 10))])\<close>
  by code_simp

text \<open>
  Claim C8, amended. For the postal code "29902555", resolved to the city
  "Sao Paulo" (with its tilde, in UTF-8) with 28.5 degrees Celsius reported, the Resolver Service answers 200 with the city,
  \<open>temp_C\<close> 28.5, \<open>temp_K\<close> 301.5, and as \<open>temp_F\<close> the \<^verbatim>\<open>float64\<close> value of
  \<^verbatim>\<open>28.5*1.8 + 32\<close>: 83.3 where the compiler fuses the product and the sum,
  83.30000000000001 where it rounds both.
\<close>

theorem documented_example:
  assumes "ShouldBindJSON w body = Inr req" and "CEP req = ''29902555''"
    and "snd (getCityFromCEP w ''29902555'') = Inr Sao_Paulo"
    and "snd (getWeather w Sao_Paulo) = Inr (f64_const 285 10)"
  shows "status_code (snd (weather_handler w body)) = 200
         \<and> response_body (snd (weather_handler w body))
             = Document (JObject
                 [(''city'', JString Sao_Paulo), (''temp_C'', JNumber (f64_const 285 10)),
                  (''temp_F'', JNumber
                     (if FusedMultiplyAdd w then f64_const 833 10
                      else f64_const 8330000000000001 100000000000000)),
                  (''temp_K'', JNumber (f64_const 3015 10))])"
proof -
  have valid: "validateCEP (CEP req)"
    unfolding assms(2) by code_simp
  have r: "snd (weather_handler w body) =
      JSON 200 (WeatherPayload
        \<lparr>City = Sao_Paulo, TempC = f64_const 285 10,
         TempF = celsiusToFahrenheit (FusedMultiplyAdd w) (f64_const 285 10),
         TempK = celsiusToKelvin (f64_const 285 10)\<rparr>)"
    using weather_handler_success [OF assms(1) valid] assms(2-4) by simp
  show ?thesis
    by (cases "FusedMultiplyAdd w")
      (simp_all add: r fahrenheit_28_5_rounded_twice fahrenheit_28_5_fused kelvin_28_5)
qed

theorem documented_example_witness:
  \<open>response_body (snd (weather_handler example_world ''{"cep":"29902555"}''))
     = Document (JObject
         [(''city'', JString Sao_Paulo), (''temp_C'', JNumber (f64_const 285 10)),
          (''temp_F'', JNumber (f64_const 8330000000000001 100000000000000)),
          (''temp_K'', JNumber (f64_const 3015 10))])
   \<and> response_body
       (snd (weather_handler (example_world\<lparr>FusedMultiplyAdd := True\<rparr>) ''{"cep":"29902555"}''))
     = Document (JObject
         [(''city'', JString Sao_Paulo), (''temp_C'', JNumber (f64_const 285 10)),
          (''temp_F'', JNumber (f64_const 833 10)),
          (''temp_K'', JNumber (f64_const 3015 10))])\<close>
proof -
  have bind: \<open>ShouldBindJSON example_world ''{"cep":"29902555"}'' = Inr \<lparr>CEP = ''29902555''\<rparr>\<close>
    \<open>ShouldBindJSON (example_world\<lparr>FusedMultiplyAdd := True\<rparr>) ''{"cep":"29902555"}''
      = Inr \<lparr>CEP = ''29902555''\<rparr>\<close>
    by code_simp+
  have cep: "CEP \<lparr>CEP = ''29902555''\<rparr> = ''29902555''"
    by simp
  have city: "snd (getCityFromCEP example_world ''29902555'') = Inr Sao_Paulo"
    "snd (getCityFromCEP (example_world\<lparr>FusedMultiplyAdd := True\<rparr>) ''29902555'') = Inr Sao_Paulo"
    by code_simp+
  have weather: "snd (getWeather example_world Sao_Paulo) = Inr (f64_const 285 10)"
    "snd (getWeather (example_world\<lparr>FusedMultiplyAdd := True\<rparr>) Sao_Paulo)
      = Inr (f64_const 285 10)"
    by code_simp+
  have mode: "FusedMultiplyAdd example_world = False"
    "FusedMultiplyAdd (example_world\<lparr>FusedMultiplyAdd := True\<rparr>) = True"
    by code_simp+
  show ?thesis
    using documented_example [OF bind(1) cep city(1) weather(1)]
      documented_example [OF bind(2) cep city(2) weather(2)] mode
    by simp
qed

end
